theory Spec2Isabelle
  imports Complex_Main "HOL-Library.Log_Nat"
begin

section \<open>Data model of \<open>action.js\<close>\<close>

text \<open>
  The action waits for a deployment made by a given actor, then for a successful deployment
  status, then for the deployed URL to answer an HTTP GET. All three waits are \<open>for\<close> loops
  bounded by \<open>calculateIterations\<close>.

  JavaScript numbers are embedded as rationals: every finite binary64 value is one. The
  result of a division or multiplication is the exact result rounded to binary64, that is
  to 53 significant bits, to nearest, ties to even (\<open>binary64\<close> below). The exponent
  range is not bounded: overflow to \<open>Infinity\<close> above about \<open>1.8e308\<close>, gradual
  underflow below about \<open>2.2e-308\<close>, the sign of zero and non-finite inputs are outside
  the model. A division whose divisor is zero is written out, since JavaScript yields
  \<open>Infinity\<close>, \<open>-Infinity\<close> or \<open>NaN\<close> there, and \<open>Math.floor\<close> keeps those values.
\<close>

type_synonym number = rat

text \<open>
  Rounding to binary64. For \<open>x > 0\<close>, \<open>exponent2 x\<close> is the exponent \<open>e\<close> with
  \<open>2 ^ e \<le> x < 2 ^ (e + 1)\<close>; the binary64 values of that binade are the multiples of
  \<open>2 ^ (e - 52)\<close>, and \<open>x\<close> is rounded to the nearest of them, to the even one on a
  tie.
\<close>

definition round_half_even :: "rat \<Rightarrow> int" where
  "round_half_even x =
     (let n = \<lfloor>x\<rfloor>; r = x - of_int n
      in if r < 1 / 2 then n else if 1 / 2 < r then n + 1 else if even n then n else n + 1)"

definition exponent2 :: "rat \<Rightarrow> int" where
  "exponent2 x =
     (let (p, q) = quotient_of x; d = bitlen p - bitlen q
      in if 2 powi d \<le> x then d else d - 1)"

definition binary64_pos :: "rat \<Rightarrow> rat" where
  "binary64_pos x =
     (let ulp = 2 powi (exponent2 x - 52) in of_int (round_half_even (x / ulp)) * ulp)"

definition binary64 :: "rat \<Rightarrow> number" where
  "binary64 x =
     (if x = 0 then 0 else if 0 < x then binary64_pos x else - binary64_pos (- x))"

text \<open>The value of \<open>Math.floor (a / b)\<close> for finite \<open>a\<close> and \<open>b\<close>.\<close>

datatype count = Finite int | Infinity | NegInfinity | NaN

text \<open>
  Values that the code throws and catches. \<open>StatusError\<close> is the class of the source;
  \<open>ResponseError\<close> is an error carrying \<open>e.response\<close> (with its status code),
  \<open>RequestError\<close> one carrying \<open>e.request\<close> only, \<open>Error\<close> any other (a
  \<open>TypeError\<close>, an API client error). Each carries its \<open>message\<close>.
\<close>

datatype exn =
    StatusError string
  | ResponseError nat string
  | RequestError string
  | Error string

fun message :: "exn \<Rightarrow> string" where
  "message (StatusError m) = m"
| "message (ResponseError c m) = m"
| "message (RequestError m) = m"
| "message (Error m) = m"

record deployment =
  dep_id :: int
  creator_login :: string

record status =
  state :: string
  environment_url :: "string option"

text \<open>
  What the code writes to the console; the numbers that the template strings interpolate
  are kept as numbers.
\<close>

datatype logmsg =
    ReceivedSuccess
  | GetStatusAttempt nat nat count
  | GetNoResponseAttempt nat count
  | Text string
  | Thrown exn
  | StatusObject "status option"
  | StatusRetry nat count
  | DeploymentObject deployment
  | DeploymentRetry string nat count
  | DeploymentFetchError nat count
  | TargetUrl string
  | TargetHost string
  | WaitingFor string

text \<open>
  The effects of the program in the order they happen: console output, the sleep between
  attempts, the calls to the API and the HTTP client, \<open>core.setFailed\<close> and
  \<open>core.setOutput\<close>.
\<close>

datatype event =
    ConsoleLog logmsg
  | ConsoleError exn
  | Wait number
  | ListDeployments string string
  | ListDeploymentStatuses int
  | PullsGet int
  | HttpGet string
  | SetFailed string
  | SetOutput string string

section \<open>Retry budget\<close>

text \<open>
  \<^verbatim>\<open>const calculateIterations = (maxTimeoutSec, checkIntervalInMilliseconds) =>
  Math.floor(maxTimeoutSec / (checkIntervalInMilliseconds / 1000));\<close>
\<close>

definition js_floor_div :: "number \<Rightarrow> number \<Rightarrow> count" where
  "js_floor_div a b =
     (if b = 0 then (if 0 < a then Infinity else if a < 0 then NegInfinity else NaN)
      else Finite \<lfloor>binary64 (a / b)\<rfloor>)"

definition calculateIterations :: "number \<Rightarrow> number \<Rightarrow> count" where
  "calculateIterations maxTimeoutSec checkIntervalInMilliseconds =
     js_floor_div maxTimeoutSec (binary64 (checkIntervalInMilliseconds / 1000))"

text \<open>The loop test \<open>i < iterations\<close>; a comparison with \<open>NaN\<close> is false.\<close>

fun less_count :: "nat \<Rightarrow> count \<Rightarrow> bool" where
  "less_count i (Finite n) = (int i < n)"
| "less_count i Infinity = True"
| "less_count i NegInfinity = False"
| "less_count i NaN = False"

section \<open>The polling loop\<close>

text \<open>
  Each poller is \<^verbatim>\<open>for (let i = 0; i < iterations; i++) { try { ... return x } catch (e)
  { ... } }\<close>. One pass through the loop body at index \<open>i\<close> either returns a value
  (\<open>Some x\<close>) or falls through to \<open>i++\<close> (\<open>None\<close>), and emits events. The loop takes
  the events so far and returns them extended. With \<open>iterations = Infinity\<close> the loop ends
  only when a pass returns, so not returning is the value \<open>None\<close>.
\<close>

partial_function (option) for_loop ::
  "(nat \<Rightarrow> 'r option \<times> event list) \<Rightarrow> count \<Rightarrow> nat \<Rightarrow> event list
     \<Rightarrow> ('r option \<times> event list) option" where
  "for_loop body iterations i tr =
     (if less_count i iterations then
        (case body i of
           (Some r, evs) \<Rightarrow> Some (Some r, tr @ evs)
         | (None, evs) \<Rightarrow> for_loop body iterations (Suc i) (tr @ evs))
      else Some (None, tr))"

text \<open>The events of the passes \<open>i\<close>, \<open>i + 1\<close>, ..., \<open>k - 1\<close> of a loop, in order.\<close>

definition passes :: "(nat \<Rightarrow> 'r option \<times> event list) \<Rightarrow> nat \<Rightarrow> nat \<Rightarrow> event list" where
  "passes body i k = concat (map (\<lambda>j. snd (body j)) [i..<k])"

section \<open>URL reachability poller\<close>

text \<open>
  The \<open>catch\<close> block of \<open>waitForUrl\<close>: the log depends on the shape of the error, the
  sleep does not.
\<close>

fun waitForUrl_catch :: "exn \<Rightarrow> nat \<Rightarrow> count \<Rightarrow> number \<Rightarrow> event list" where
  "waitForUrl_catch (ResponseError c m) i iterations ms =
     [ConsoleLog (GetStatusAttempt c i iterations), Wait ms]"
| "waitForUrl_catch (RequestError m) i iterations ms =
     [ConsoleLog (GetNoResponseAttempt i iterations), ConsoleLog (Text m), Wait ms]"
| "waitForUrl_catch e i iterations ms = [ConsoleLog (Thrown e), Wait ms]"

text \<open>
  One pass of the loop. \<open>new_URL2 path url\<close> is \<open>new URL(path, url).toString()\<close>, which
  throws on an invalid URL; \<open>axios_get i\<close> is the result of the GET of pass \<open>i\<close>.
\<close>

definition waitForUrl_body ::
  "(string \<Rightarrow> string \<Rightarrow> exn + string) \<Rightarrow> (nat \<Rightarrow> exn + unit) \<Rightarrow> string \<Rightarrow> string
     \<Rightarrow> number \<Rightarrow> count \<Rightarrow> nat \<Rightarrow> unit option \<times> event list" where
  "waitForUrl_body new_URL2 axios_get url path checkIntervalInMilliseconds iterations i =
     (case new_URL2 path url of
        Inl e \<Rightarrow> (None, waitForUrl_catch e i iterations checkIntervalInMilliseconds)
      | Inr checkUri \<Rightarrow>
          (case axios_get i of
             Inr u \<Rightarrow> (Some (), [HttpGet checkUri, ConsoleLog ReceivedSuccess])
           | Inl e \<Rightarrow>
               (None, HttpGet checkUri
                  # waitForUrl_catch e i iterations checkIntervalInMilliseconds)))"

definition waitForUrl ::
  "(string \<Rightarrow> string \<Rightarrow> exn + string) \<Rightarrow> (nat \<Rightarrow> exn + unit) \<Rightarrow> string \<Rightarrow> number
     \<Rightarrow> number \<Rightarrow> string \<Rightarrow> event list \<Rightarrow> event list option" where
  "waitForUrl new_URL2 axios_get url maxTimeout checkIntervalInMilliseconds path tr =
     (let iterations = calculateIterations maxTimeout checkIntervalInMilliseconds in
      case for_loop
             (waitForUrl_body new_URL2 axios_get url path checkIntervalInMilliseconds
                iterations)
             iterations 0 tr of
        None \<Rightarrow> None
      | Some (Some u, tr') \<Rightarrow> Some tr'
      | Some (None, tr') \<Rightarrow>
          Some (tr' @ [SetFailed (''Timeout reached: Unable to connect to '' @ url)]))"

section \<open>Deployment status poller\<close>

text \<open>\<open>haystack.includes(needle)\<close> on strings.\<close>

fun str_includes :: "string \<Rightarrow> string \<Rightarrow> bool" where
  "str_includes [] needle = (needle = [])"
| "str_includes (c # cs) needle =
     (take (length needle) (c # cs) = needle \<or> str_includes cs needle)"

text \<open>
  The \<open>try\<close> block after the API call returned \<open>statuses.data\<close>: the log of
  \<open>{ status }\<close>, then the value returned or the \<open>StatusError\<close> thrown.
  \<open>status\<close> is \<open>statuses.data.length > 0 && statuses.data[0]\<close>, here \<open>None\<close> when the
  list is empty.
\<close>

definition waitForStatus_try :: "bool \<Rightarrow> status list \<Rightarrow> event list \<times> (exn + status)" where
  \<open>waitForStatus_try allowInactive data =
     (let status = (case data of [] \<Rightarrow> None | s # older \<Rightarrow> Some s) in
      ([ConsoleLog (StatusObject status)],
       case status of
         None \<Rightarrow> Inl (StatusError ''No status was available'')
       | Some s \<Rightarrow>
           if allowInactive \<and> state s = ''inactive'' then Inr s
           else if state s \<noteq> ''success'' then
             Inl (StatusError ''No status with state "success" was available'')
           else if state s = ''success'' then Inr s
           else Inl (StatusError ''Unknown status error'')))\<close>

definition waitForStatus_catch :: "exn \<Rightarrow> nat \<Rightarrow> count \<Rightarrow> number \<Rightarrow> event list" where
  \<open>waitForStatus_catch e i iterations ms =
     ConsoleLog (StatusRetry (i + 1) iterations)
       # (case e of
            StatusError m \<Rightarrow>
              if str_includes m ''No status with state "success"'' then []
              else [ConsoleLog (Text m)]
          | _ \<Rightarrow> [ConsoleLog (Thrown e)])
       @ [Wait ms]\<close>

definition waitForStatus_body ::
  "(nat \<Rightarrow> exn + status list) \<Rightarrow> int \<Rightarrow> bool \<Rightarrow> number \<Rightarrow> count \<Rightarrow> nat
     \<Rightarrow> status option \<times> event list" where
  "waitForStatus_body listDeploymentStatuses deployment_id allowInactive
       checkIntervalInMilliseconds iterations i =
     (case listDeploymentStatuses i of
        Inl e \<Rightarrow>
          (None, ListDeploymentStatuses deployment_id
             # waitForStatus_catch e i iterations checkIntervalInMilliseconds)
      | Inr data \<Rightarrow>
          (case waitForStatus_try allowInactive data of
             (evs, Inr s) \<Rightarrow> (Some s, ListDeploymentStatuses deployment_id # evs)
           | (evs, Inl e) \<Rightarrow>
               (None, ListDeploymentStatuses deployment_id # evs
                  @ waitForStatus_catch e i iterations checkIntervalInMilliseconds)))"

text \<open>
  \<open>getOctokit token\<close> is \<open>Some e\<close> when \<open>new github.getOctokit(token)\<close> throws \<open>e\<close>;
  that call is outside the loop, so the error leaves \<open>waitForStatus\<close>. The result
  \<open>Inr None\<close> is the \<open>undefined\<close> returned after \<open>core.setFailed\<close>.
\<close>

definition waitForStatus ::
  "(string \<Rightarrow> exn option) \<Rightarrow> (nat \<Rightarrow> exn + status list) \<Rightarrow> string \<Rightarrow> int \<Rightarrow> number
     \<Rightarrow> bool \<Rightarrow> number \<Rightarrow> event list \<Rightarrow> ((exn + status option) \<times> event list) option" where
  "waitForStatus getOctokit listDeploymentStatuses token deployment_id maxTimeout
       allowInactive checkIntervalInMilliseconds tr =
     (case getOctokit token of
        Some e \<Rightarrow> Some (Inl e, tr)
      | None \<Rightarrow>
          (let iterations = calculateIterations maxTimeout checkIntervalInMilliseconds in
           case for_loop
                  (waitForStatus_body listDeploymentStatuses deployment_id allowInactive
                     checkIntervalInMilliseconds iterations)
                  iterations 0 tr of
             None \<Rightarrow> None
           | Some (Some s, tr') \<Rightarrow> Some (Inr (Some s), tr')
           | Some (None, tr') \<Rightarrow>
               Some (Inr None,
                 tr' @ [SetFailed
                   ''Timeout reached: Unable to wait for an deployment to be successful''])))"

section \<open>Deployment discovery poller\<close>

text \<open>
  \<open>deployments.data.length > 0 && deployments.data.find(...)\<close>: the first deployment of
  the list whose creator is the actor, if any.
\<close>

definition find_deployment :: "string \<Rightarrow> deployment list \<Rightarrow> deployment option" where
  "find_deployment actorName data =
     (if length data > 0 then find (\<lambda>deployment. creator_login deployment = actorName) data
      else None)"

definition waitForDeploymentToStart_body ::
  "(nat \<Rightarrow> exn + deployment list) \<Rightarrow> string \<Rightarrow> string \<Rightarrow> string \<Rightarrow> number \<Rightarrow> count
     \<Rightarrow> nat \<Rightarrow> deployment option \<times> event list" where
  "waitForDeploymentToStart_body listDeployments sha environment actorName
       checkIntervalInMilliseconds iterations i =
     (case listDeployments i of
        Inr data \<Rightarrow>
          (case find_deployment actorName data of
             Some deployment \<Rightarrow>
               (Some deployment,
                [ListDeployments sha environment, ConsoleLog (DeploymentObject deployment)])
           | None \<Rightarrow>
               (None,
                [ListDeployments sha environment,
                 ConsoleLog (DeploymentRetry actorName (i + 1) iterations),
                 Wait checkIntervalInMilliseconds]))
      | Inl e \<Rightarrow>
          (None,
           [ListDeployments sha environment,
            ConsoleLog (DeploymentFetchError (i + 1) iterations),
            ConsoleError e,
            Wait checkIntervalInMilliseconds]))"

text \<open>An answer of the listing call without a deployment of the actor: an error, or a list
  in which \<open>find\<close> finds none.\<close>

definition no_deployment_of :: "string \<Rightarrow> exn + deployment list \<Rightarrow> bool" where
  "no_deployment_of actorName answer =
     (case answer of Inl e \<Rightarrow> True | Inr data \<Rightarrow> find_deployment actorName data = None)"

text \<open>
  The parameters \<open>maxTimeout = 20\<close> and \<open>checkIntervalInMilliseconds = 2000\<close> have
  defaults, taken when the caller passes \<open>undefined\<close> (\<open>None\<close>). The result \<open>None\<close> in
  the first component is the \<open>null\<close> returned after the loop.
\<close>

definition waitForDeploymentToStart ::
  "(nat \<Rightarrow> exn + deployment list) \<Rightarrow> string \<Rightarrow> string \<Rightarrow> string \<Rightarrow> number option
     \<Rightarrow> number option \<Rightarrow> event list \<Rightarrow> (deployment option \<times> event list) option" where
  "waitForDeploymentToStart listDeployments sha environment actorName maxTimeout
       checkIntervalInMilliseconds tr =
     (let maxTimeout' = (case maxTimeout of None \<Rightarrow> 20 | Some m \<Rightarrow> m);
          checkIntervalInMilliseconds' =
            (case checkIntervalInMilliseconds of None \<Rightarrow> 2000 | Some ms \<Rightarrow> ms);
          iterations = calculateIterations maxTimeout' checkIntervalInMilliseconds'
      in for_loop
           (waitForDeploymentToStart_body listDeployments sha environment actorName
              checkIntervalInMilliseconds' iterations)
           iterations 0 tr)"

section \<open>The orchestrator\<close>

text \<open>
  The inputs as \<open>core.getInput\<close> hands them over. Reading \<open>token\<close> with
  \<open>required: true\<close> may throw; \<open>Number(...)\<close> of an input is a number or \<open>NaN\<close>
  (\<open>None\<close>).
\<close>

record inputs =
  input_token :: "exn + string"
  input_environment :: string
  input_actor_name :: string
  input_max_timeout :: "number option"
  input_allow_inactive :: string
  input_path :: string
  input_check_interval :: "number option"

text \<open>
  What the run reads from its surroundings: the triggering event, the answers of the API (one
  per pass of each loop), the \<open>URL\<close> constructor and the HTTP client.
  \<open>ctx_pull_request\<close> is \<open>github.context.payload.pull_request\<close>, present or not,
  with its \<open>number\<close>, present or not; \<open>api_pulls_get\<close> answers with the response status
  and \<open>data.head.sha\<close>; \<open>js_new_URL s\<close> is \<open>new URL(s).host\<close>.
\<close>

record world =
  ctx_getOctokit :: "string \<Rightarrow> exn option"
  ctx_repo :: "exn option"
  ctx_pull_request :: "int option option"
  ctx_sha :: "string option"
  api_pulls_get :: "exn + int \<times> string"
  api_listDeployments :: "nat \<Rightarrow> exn + deployment list"
  api_listDeploymentStatuses :: "nat \<Rightarrow> exn + status list"
  js_new_URL :: "string \<Rightarrow> exn + string"
  js_new_URL2 :: "string \<Rightarrow> string \<Rightarrow> exn + string"
  http_get :: "nat \<Rightarrow> exn + unit"

text \<open>\<open>Boolean(s)\<close> of a string, and \<open>x || d\<close> for a number and for a string.\<close>

definition js_Boolean :: "string \<Rightarrow> bool" where
  "js_Boolean s = (s \<noteq> [])"

definition number_or :: "number option \<Rightarrow> number \<Rightarrow> number" where
  "number_or x d = (case x of None \<Rightarrow> d | Some n \<Rightarrow> if n = 0 then d else n)"

definition string_or :: "string \<Rightarrow> string \<Rightarrow> string" where
  "string_or s d = (if js_Boolean s then s else d)"

definition MAX_TIMEOUT :: "inputs \<Rightarrow> number" where
  "MAX_TIMEOUT inp = number_or (input_max_timeout inp) 60"

definition ALLOW_INACTIVE :: "inputs \<Rightarrow> bool" where
  "ALLOW_INACTIVE inp = (js_Boolean (input_allow_inactive inp) \<or> False)"

definition PATH :: "inputs \<Rightarrow> string" where
  "PATH inp = string_or (input_path inp) ''/''"

definition CHECK_INTERVAL_IN_MS :: "inputs \<Rightarrow> number" where
  "CHECK_INTERVAL_IN_MS inp = binary64 (number_or (input_check_interval inp) 2 * 1000)"

text \<open>The \<open>TypeError\<close> of reading a property of \<open>undefined\<close>.\<close>

definition undefined_number :: exn where
  "undefined_number = Error ''Cannot read properties of undefined (reading 'number')''"

definition undefined_environment_url :: exn where
  "undefined_environment_url =
     Error ''Cannot read properties of undefined (reading 'environment_url')''"

definition getShaForPullRequest ::
  "world \<Rightarrow> event list \<Rightarrow> (exn + string option) \<times> event list" where
  "getShaForPullRequest ctx tr =
     (case ctx_pull_request ctx of
        None \<Rightarrow> (Inl undefined_number, tr)
      | Some PR_NUMBER \<Rightarrow>
          (case PR_NUMBER of
             None \<Rightarrow> (Inr None, tr @ [SetFailed ''No pull request number was found''])
           | Some n \<Rightarrow>
               if n = 0 then (Inr None, tr @ [SetFailed ''No pull request number was found''])
               else
                 (case api_pulls_get ctx of
                    Inl e \<Rightarrow> (Inl e, tr @ [PullsGet n])
                  | Inr (st, prSHA) \<Rightarrow>
                      if st \<noteq> 200 then
                        (Inr None,
                         tr @ [PullsGet n,
                           SetFailed
                             ''Could not get information about the current pull request''])
                      else (Inr (Some prSHA), tr @ [PullsGet n]))))"

text \<open>
  \<open>let sha\<close> and the \<open>if\<close> that fills it: from the pull request of the event when
  there is one, else from \<open>github.context.sha\<close> when that is not empty, else left
  \<open>undefined\<close>.
\<close>

definition resolve_sha :: "world \<Rightarrow> event list \<Rightarrow> (exn + string option) \<times> event list" where
  "resolve_sha ctx tr =
     (if ctx_pull_request ctx \<noteq> None then getShaForPullRequest ctx tr
      else if (case ctx_sha ctx of None \<Rightarrow> False | Some s \<Rightarrow> js_Boolean s)
        then (Inr (ctx_sha ctx), tr)
      else (Inr None, tr))"

text \<open>
  The end of \<open>run\<close>, from \<open>const targetUrl = status.environment_url\<close> on. \<open>status\<close>
  is \<open>None\<close> when \<open>waitForStatus\<close> returned \<open>undefined\<close>. The host is parsed before
  \<open>targetUrl\<close> is tested; \<open>new URL(undefined)\<close> parses the string \<open>undefined\<close>.
\<close>

definition run_target ::
  "world \<Rightarrow> number \<Rightarrow> number \<Rightarrow> string \<Rightarrow> status option \<Rightarrow> event list
     \<Rightarrow> ((exn + unit) \<times> event list) option" where
  "run_target ctx maxTimeout checkInterval path status tr =
     (case status of
        None \<Rightarrow> Some (Inl undefined_environment_url, tr)
      | Some st \<Rightarrow>
          (let targetUrl = environment_url st in
           case js_new_URL ctx (case targetUrl of None \<Rightarrow> ''undefined'' | Some u \<Rightarrow> u) of
             Inl e \<Rightarrow> Some (Inl e, tr)
           | Inr targetHost \<Rightarrow>
               (case targetUrl of
                  None \<Rightarrow>
                    Some (Inr (), tr @ [SetFailed ''no target_url found in the status check''])
                | Some u \<Rightarrow>
                    if \<not> js_Boolean u then
                      Some (Inr (),
                        tr @ [SetFailed ''no target_url found in the status check''])
                    else
                      (case waitForUrl (js_new_URL2 ctx) (http_get ctx) u maxTimeout
                              checkInterval path
                              (tr @ [ConsoleLog (TargetUrl u), ConsoleLog (TargetHost targetHost),
                                 SetOutput ''url'' u, SetOutput ''host'' targetHost,
                                 ConsoleLog (WaitingFor u)]) of
                         None \<Rightarrow> None
                       | Some tr' \<Rightarrow> Some (Inr (), tr')))))"

text \<open>
  The body of the \<open>try\<close> of \<open>run\<close> from the deployment discovery on, for a commit
  \<open>sha\<close> that was found.
\<close>

definition run_stages ::
  "inputs \<Rightarrow> world \<Rightarrow> string \<Rightarrow> string \<Rightarrow> event list
     \<Rightarrow> ((exn + unit) \<times> event list) option" where
  "run_stages inp ctx GITHUB_TOKEN sha tr =
     (case waitForDeploymentToStart (api_listDeployments ctx) sha (input_environment inp)
             (input_actor_name inp) (Some (MAX_TIMEOUT inp))
             (Some (CHECK_INTERVAL_IN_MS inp)) tr of
        None \<Rightarrow> None
      | Some (None, tr1) \<Rightarrow> Some (Inr (), tr1 @ [SetFailed ''no deployment found, exiting...''])
      | Some (Some deployment, tr1) \<Rightarrow>
          (case waitForStatus (ctx_getOctokit ctx) (api_listDeploymentStatuses ctx)
                  GITHUB_TOKEN (dep_id deployment) (MAX_TIMEOUT inp) (ALLOW_INACTIVE inp)
                  (CHECK_INTERVAL_IN_MS inp) tr1 of
             None \<Rightarrow> None
           | Some (Inl e, tr2) \<Rightarrow> Some (Inl e, tr2)
           | Some (Inr status, tr2) \<Rightarrow>
               run_target ctx (MAX_TIMEOUT inp) (CHECK_INTERVAL_IN_MS inp) (PATH inp)
                 status tr2))"

text \<open>The body of the \<open>try\<close> of \<open>run\<close>; \<open>Inl e\<close> is an error thrown out of it.\<close>

definition run_try ::
  "inputs \<Rightarrow> world \<Rightarrow> event list \<Rightarrow> ((exn + unit) \<times> event list) option" where
  "run_try inp ctx tr =
     (case input_token inp of
        Inl e \<Rightarrow> Some (Inl e, tr)
      | Inr GITHUB_TOKEN \<Rightarrow>
          (let tr1 =
                 (if \<not> js_Boolean GITHUB_TOKEN then
                    tr @ [SetFailed ''Required field `token` was not provided'']
                  else tr)
           in case ctx_getOctokit ctx GITHUB_TOKEN of
                Some e \<Rightarrow> Some (Inl e, tr1)
              | None \<Rightarrow>
                  (case ctx_repo ctx of
                     Some e \<Rightarrow> Some (Inl e, tr1)
                   | None \<Rightarrow>
                       (case resolve_sha ctx tr1 of
                          (Inl e, tr2) \<Rightarrow> Some (Inl e, tr2)
                        | (Inr None, tr2) \<Rightarrow>
                            Some (Inr (), tr2 @ [SetFailed ''Unable to determine SHA. Exiting...''])
                        | (Inr (Some sha), tr2) \<Rightarrow>
                            if \<not> js_Boolean sha then
                              Some (Inr (),
                                tr2 @ [SetFailed ''Unable to determine SHA. Exiting...''])
                            else run_stages inp ctx GITHUB_TOKEN sha tr2))))"

text \<open>\<open>run\<close>: the \<open>catch\<close> reports the message of whatever the body threw.\<close>

definition run :: "inputs \<Rightarrow> world \<Rightarrow> event list option" where
  "run inp ctx =
     (case run_try inp ctx [] of
        None \<Rightarrow> None
      | Some (Inl error, tr) \<Rightarrow> Some (tr @ [SetFailed (message error)])
      | Some (Inr u, tr) \<Rightarrow> Some tr)"

section \<open>Reading a trace\<close>

text \<open>
  The messages passed to \<open>core.setFailed\<close>, the outputs set with \<open>core.setOutput\<close>
  and the calls made to the API and to the HTTP client, each in the order of the trace.
\<close>

fun signals :: "event list \<Rightarrow> string list" where
  "signals [] = []"
| "signals (SetFailed m # es) = m # signals es"
| "signals (e # es) = signals es"

fun outputs :: "event list \<Rightarrow> (string \<times> string) list" where
  "outputs [] = []"
| "outputs (SetOutput k v # es) = (k, v) # outputs es"
| "outputs (e # es) = outputs es"

fun is_call :: "event \<Rightarrow> bool" where
  "is_call (ListDeployments sha environment) = True"
| "is_call (ListDeploymentStatuses deployment_id) = True"
| "is_call (PullsGet n) = True"
| "is_call (HttpGet uri) = True"
| "is_call e = False"

definition calls :: "event list \<Rightarrow> event list" where
  "calls tr = filter is_call tr"

text \<open>
  How a run ended, read from its trace: with both outputs set, no failure signalled and the
  success of the last GET logged; with a failure signalled and no output set; or with both
  outputs set and then the timeout of the reachability poller as the only failure.
\<close>

definition run_succeeded :: "event list \<Rightarrow> bool" where
  "run_succeeded tr =
     (signals tr = [] \<and> map fst (outputs tr) = [''url'', ''host''] \<and> tr \<noteq> []
      \<and> last tr = ConsoleLog ReceivedSuccess)"

definition run_failed_without_outputs :: "event list \<Rightarrow> bool" where
  "run_failed_without_outputs tr = (signals tr \<noteq> [] \<and> outputs tr = [])"

definition run_timed_out_with_outputs :: "event list \<Rightarrow> bool" where
  "run_timed_out_with_outputs tr =
     (map fst (outputs tr) = [''url'', ''host''] \<and> tr \<noteq> []
      \<and> last tr
          = SetFailed (''Timeout reached: Unable to connect to '' @ snd (hd (outputs tr)))
      \<and> signals tr = [''Timeout reached: Unable to connect to '' @ snd (hd (outputs tr))])"

text \<open>The events with which the status stage or the reachability stage calls out.\<close>

fun later_stage_call :: "event \<Rightarrow> bool" where
  "later_stage_call (ListDeploymentStatuses deployment_id) = True"
| "later_stage_call (HttpGet uri) = True"
| "later_stage_call e = False"

section \<open>A run of the whole action\<close>

text \<open>
  A push of commit \<open>abc123\<close> by actor \<open>bot-x\<close> to environment \<open>preview\<close>: the
  deployment \<open>42\<close> appears on the third listing, its status is \<open>pending\<close> and then
  \<open>success\<close>, and the first GET of the preview gets no response.
\<close>

definition scenario_inputs :: inputs where
  "scenario_inputs =
     \<lparr>input_token = Inr ''ghp_token'', input_environment = ''preview'',
      input_actor_name = ''bot-x'', input_max_timeout = Some 0, input_allow_inactive = '''',
      input_path = '''', input_check_interval = Some 2\<rparr>"

definition scenario_deployment :: deployment where
  "scenario_deployment = \<lparr>dep_id = 42, creator_login = ''bot-x''\<rparr>"

definition scenario_status :: status where
  "scenario_status =
     \<lparr>state = ''success'', environment_url = Some ''https://preview-42.example.com''\<rparr>"

definition scenario_host :: "string \<Rightarrow> exn + string" where
  "scenario_host s =
     (if s = ''https://preview-42.example.com'' then Inr ''preview-42.example.com''
      else Inl (Error ''Invalid URL''))"

definition scenario_world :: world where
  "scenario_world =
     \<lparr>ctx_getOctokit = (\<lambda>t. if t = [] then Some (Error ''Parameter token or opts.auth is required'') else None),
      ctx_repo = None, ctx_pull_request = None, ctx_sha = Some ''abc123'',
      api_pulls_get = Inl (Error ''Not Found''),
      api_listDeployments = (\<lambda>i. if i < 2 then Inr [] else Inr [scenario_deployment]),
      api_listDeploymentStatuses =
        (\<lambda>i. if i < 1 then Inr [\<lparr>state = ''pending'', environment_url = Some ''''\<rparr>]
             else Inr [scenario_status]),
      js_new_URL = scenario_host,
      js_new_URL2 = (\<lambda>p u. Inr (u @ p)),
      http_get = (\<lambda>i. if i < 1 then Inl (RequestError ''socket hang up'') else Inr ())\<rparr>"

text \<open>
  Variations of the scenario: a timeout of four seconds (two passes per poller); a preview
  that never answers; a success status without an environment URL; and no deployment of the
  actor.
\<close>

definition short_inputs :: inputs where
  "short_inputs = scenario_inputs\<lparr>input_max_timeout := Some 4\<rparr>"

definition deployed_world :: world where
  "deployed_world =
     scenario_world\<lparr>api_listDeployments := (\<lambda>i. Inr [scenario_deployment]),
       api_listDeploymentStatuses := (\<lambda>i. Inr [scenario_status])\<rparr>"

definition unreachable_world :: world where
  "unreachable_world =
     deployed_world\<lparr>http_get := (\<lambda>i. Inl (RequestError ''socket hang up''))\<rparr>"

definition no_url_world :: world where
  "no_url_world =
     deployed_world\<lparr>api_listDeploymentStatuses :=
       (\<lambda>i. Inr [\<lparr>state = ''success'', environment_url = Some []\<rparr>])\<rparr>"

definition no_deployment_world :: world where
  "no_deployment_world =
     scenario_world\<lparr>api_listDeployments :=
       (\<lambda>i. Inr [\<lparr>dep_id = 7, creator_login = ''octocat''\<rparr>])\<rparr>"

section \<open>Lemmas about traces, the loop and the pollers\<close>

subsection \<open>Traces\<close>

lemma signals_append: "signals (xs @ ys) = signals xs @ signals ys"
  by (induction xs rule: signals.induct) simp_all

lemma outputs_append: "outputs (xs @ ys) = outputs xs @ outputs ys"
  by (induction xs rule: outputs.induct) simp_all

lemma calls_append: "calls (xs @ ys) = calls xs @ calls ys"
  by (simp add: calls_def)

subsection \<open>The loop\<close>

lemma passes_empty: "k \<le> i \<Longrightarrow> passes body i k = []"
  by (simp add: passes_def)

lemma passes_step: "i < k \<Longrightarrow> passes body i k = snd (body i) @ passes body (Suc i) k"
  by (simp add: passes_def upt_conv_Cons)

lemma passes_last: "i \<le> k \<Longrightarrow> passes body i (Suc k) = passes body i k @ snd (body k)"
  by (simp add: passes_def)

lemma less_count_mono: "less_count k n \<Longrightarrow> j \<le> k \<Longrightarrow> less_count j n"
  by (cases n) auto

lemma for_loop_stop: "\<not> less_count i n \<Longrightarrow> for_loop body n i tr = Some (None, tr)"
  by (subst for_loop.simps) simp

lemma for_loop_return:
  "less_count i n \<Longrightarrow> fst (body i) = Some r \<Longrightarrow>
     for_loop body n i tr = Some (Some r, tr @ snd (body i))"
  by (subst for_loop.simps) (simp add: split_beta)

lemma for_loop_next:
  "less_count i n \<Longrightarrow> fst (body i) = None \<Longrightarrow>
     for_loop body n i tr = for_loop body n (Suc i) (tr @ snd (body i))"
  by (subst for_loop.simps) (simp add: split_beta)

lemma for_loop_first_return:
  assumes "\<forall>j. i \<le> j \<and> j < k \<longrightarrow> fst (body j) = None"
    and "fst (body k) = Some r" and "less_count k n" and "i \<le> k"
  shows "for_loop body n i tr = Some (Some r, tr @ passes body i (Suc k))"
  using assms
proof (induction "k - i" arbitrary: i tr)
  case 0
  then have "i = k" by simp
  with 0 show ?case
    by (simp add: for_loop_return passes_def)
next
  case (Suc d)
  then have lt: "i < k" by simp
  then have none: "fst (body i) = None" using Suc.prems(1) by simp
  have lc: "less_count i n" using Suc.prems(3) lt less_count_mono by (meson less_imp_le)
  have "for_loop body n (Suc i) (tr @ snd (body i))
          = Some (Some r, (tr @ snd (body i)) @ passes body (Suc i) (Suc k))"
    using Suc.hyps(1)[of "Suc i"] Suc.hyps(2) Suc.prems lt by auto
  then show ?case
    using lt by (simp add: for_loop_next[where body = body, OF lc none] passes_step)
qed

lemma for_loop_exhausted:
  assumes "\<forall>j. i \<le> j \<and> int j < n \<longrightarrow> fst (body j) = None"
  shows "for_loop body (Finite n) i tr = Some (None, tr @ passes body i (nat n))"
  using assms
proof (induction "nat n - i" arbitrary: i tr)
  case 0
  then have "\<not> less_count i (Finite n)" by simp
  moreover have "passes body i (nat n) = []" using 0 by (simp add: passes_empty)
  ultimately show ?case by (simp add: for_loop_stop)
next
  case (Suc d)
  then have lt: "i < nat n" by simp
  then have lc: "less_count i (Finite n)" by simp
  have none: "fst (body i) = None" using Suc.prems lt by simp
  have "for_loop body (Finite n) (Suc i) (tr @ snd (body i))
          = Some (None, (tr @ snd (body i)) @ passes body (Suc i) (nat n))"
    using Suc.hyps(1)[of "Suc i"] Suc.hyps(2) Suc.prems by auto
  then show ?case
    using lt by (simp add: for_loop_next[where body = body, OF lc none] passes_step)
qed


text \<open>Every run of the loop with a finite bound is one of two: a first pass that returns, or
  all passes below the bound falling through.\<close>

lemma for_loop_Finite_cases:
  obtains (returned) k r where "less_count k (Finite n)"
      and "\<forall>j. j < k \<longrightarrow> fst (body j) = None" and "fst (body k) = Some r"
      and "for_loop body (Finite n) 0 tr = Some (Some r, tr @ passes body 0 (Suc k))"
  | (exhausted) "\<forall>j. int j < n \<longrightarrow> fst (body j) = None"
      and "for_loop body (Finite n) 0 tr = Some (None, tr @ passes body 0 (nat n))"
proof (cases "\<exists>j. int j < n \<and> fst (body j) \<noteq> None")
  case True
  define k where "k = (LEAST j. int j < n \<and> fst (body j) \<noteq> None)"
  have k: "int k < n \<and> fst (body k) \<noteq> None"
    unfolding k_def using True by (rule LeastI_ex)
  have least: "j < k \<Longrightarrow> fst (body j) = None" for j
  proof (rule ccontr)
    assume "j < k" and "fst (body j) \<noteq> None"
    then have "int j < n \<and> fst (body j) \<noteq> None" using k by simp
    then have "k \<le> j" unfolding k_def by (rule Least_le)
    with \<open>j < k\<close> show False by simp
  qed
  from k obtain r where r: "fst (body k) = Some r" by auto
  have "for_loop body (Finite n) 0 tr = Some (Some r, tr @ passes body 0 (Suc k))"
    by (rule for_loop_first_return) (use k r least in auto)
  then show ?thesis using returned k r least by simp
next
  case False
  then have none: "\<forall>j. int j < n \<longrightarrow> fst (body j) = None" by blast
  then have "for_loop body (Finite n) 0 tr = Some (None, tr @ passes body 0 (nat n))"
    using for_loop_exhausted[of 0 n body tr] by simp
  then show ?thesis using exhausted none by simp
qed

subsection \<open>Rounding to binary64\<close>

lemma round_half_even_bounds:
  "x - 1 / 2 \<le> of_int (round_half_even x)" "of_int (round_half_even x) \<le> x + 1 / 2"
proof -
  have a: "of_int \<lfloor>x\<rfloor> \<le> x" and b: "x < of_int \<lfloor>x\<rfloor> + 1" by linarith+
  show "x - 1 / 2 \<le> of_int (round_half_even x)"
    by (auto simp: round_half_even_def Let_def; linarith)
  show "of_int (round_half_even x) \<le> x + 1 / 2"
    by (auto simp: round_half_even_def Let_def; linarith)
qed


lemma round_half_even_ge:
  assumes "of_int k \<le> x"
  shows "k \<le> round_half_even x"
proof -
  have "(of_int k :: rat) - 1 < of_int (round_half_even x)"
    using round_half_even_bounds(1)[of x] assms by linarith
  then have "k - 1 < round_half_even x" by (metis of_int_1 of_int_diff of_int_less_iff)
  then show ?thesis by simp
qed

lemma exponent2_bounds:
  assumes "0 < x"
  shows "2 powi exponent2 x \<le> x" and "x < 2 powi (exponent2 x + 1)"
proof -
  obtain p q where pq: "quotient_of x = (p, q)" by (cases "quotient_of x")
  have q: "0 < q" using pq by (rule quotient_of_denom_pos)
  have x: "x = of_int p / of_int q" using pq by (rule quotient_of_div)
  have p: "0 < p" using assms q x by (simp add: zero_less_divide_iff)
  define a where "a = bitlen p"
  define b where "b = bitlen q"
  have a: "2 ^ nat (a - 1) \<le> p" "p < 2 ^ nat a" and a1: "1 \<le> a"
    using bitlen_bounds[OF p] p by (auto simp: a_def bitlen_alt_def)
  have b: "2 ^ nat (b - 1) \<le> q" "q < 2 ^ nat b" and b1: "1 \<le> b"
    using bitlen_bounds[OF q] q by (auto simp: b_def bitlen_alt_def)
  have pa: "(2::rat) powi (a - 1) \<le> of_int p" "of_int p < (2::rat) powi a"
    using a a1 by (simp_all add: power_int_def)
  have qb: "(2::rat) powi (b - 1) \<le> of_int q" "of_int q < (2::rat) powi b"
    using b b1 by (simp_all add: power_int_def)
  have qpos: "(0::rat) < of_int q" using q by simp
  have upper: "x < 2 powi (a - b + 1)"
  proof -
    have "x < 2 powi a / of_int q" using pa(2) qpos by (simp add: x divide_strict_right_mono)
    also have "\<dots> \<le> 2 powi a / 2 powi (b - 1)"
      using qb(1) q by (intro divide_left_mono) (simp_all add: zero_less_mult_iff)
    also have "\<dots> = 2 powi (a - (b - 1))"
      by (simp add: power_int_diff[symmetric])
    also have "a - (b - 1) = a - b + 1" by simp
    finally show ?thesis .
  qed
  have lower: "2 powi (a - b - 1) < x"
  proof -
    have "(2::rat) powi (a - b - 1) = 2 powi (a - 1 - b)"
      by (rule arg_cong[where f = "power_int 2"]) simp
    also have "\<dots> = 2 powi (a - 1) / 2 powi b"
      by (simp add: power_int_diff[symmetric])
    also have "\<dots> < 2 powi (a - 1) / of_int q"
      using qb(2) q by (intro divide_strict_left_mono) (simp_all add: zero_less_mult_iff)
    also have "\<dots> \<le> x" using pa(1) qpos by (simp add: x divide_right_mono)
    finally show ?thesis .
  qed
  have e: "exponent2 x = (if 2 powi (a - b) \<le> x then a - b else a - b - 1)"
    by (simp add: exponent2_def pq a_def b_def Let_def)
  show "2 powi exponent2 x \<le> x" using lower by (simp add: e)
  show "x < 2 powi (exponent2 x + 1)" using upper by (auto simp add: e not_le)
qed


lemma powi2_half: "(2::rat) powi (e - 52) / 2 = 2 powi e * 2 powi (-53)"
  by (simp add: power_int_diff power_int_minus)




lemma binary64_pos_err:
  assumes "0 < x"
  shows "x * (1 - 2 powi (-53)) \<le> binary64_pos x" and "binary64_pos x \<le> x * (1 + 2 powi (-53))"
proof -
  define e where "e = exponent2 x"
  define ulp :: rat where "ulp = 2 powi (e - 52)"
  have ulp: "0 < ulp" by (simp add: ulp_def)
  have b: "binary64_pos x = of_int (round_half_even (x / ulp)) * ulp"
    by (simp add: binary64_pos_def Let_def ulp_def e_def)
  have half: "ulp / 2 = 2 powi e * 2 powi (-53)"
    unfolding ulp_def by (rule powi2_half)
  have "2 powi e \<le> x" using exponent2_bounds(1)[OF assms] by (simp add: e_def)
  then have small: "ulp / 2 \<le> x * 2 powi (-53)"
    unfolding half by (intro mult_right_mono) simp_all
  have "(x / ulp - 1 / 2) * ulp \<le> of_int (round_half_even (x / ulp)) * ulp"
    using round_half_even_bounds(1)[of "x / ulp"] ulp by (intro mult_right_mono) simp_all
  moreover have "(x / ulp - 1 / 2) * ulp = x - ulp / 2" using ulp by (simp add: field_simps)
  ultimately have lo: "x - ulp / 2 \<le> binary64_pos x" by (simp add: b)
  have "of_int (round_half_even (x / ulp)) * ulp \<le> (x / ulp + 1 / 2) * ulp"
    using round_half_even_bounds(2)[of "x / ulp"] ulp by (intro mult_right_mono) simp_all
  moreover have "(x / ulp + 1 / 2) * ulp = x + ulp / 2" using ulp by (simp add: field_simps)
  ultimately have hi: "binary64_pos x \<le> x + ulp / 2" by (simp add: b)
  have l: "x * (1 - 2 powi (-53)) = x - x * 2 powi (-53)" by (simp only: right_diff_distrib mult_1_right)
  have h: "x * (1 + 2 powi (-53)) = x + x * 2 powi (-53)" by (simp only: distrib_left mult_1_right)
  show "x * (1 - 2 powi (-53)) \<le> binary64_pos x"
    unfolding l using lo small by linarith
  show "binary64_pos x \<le> x * (1 + 2 powi (-53))"
    unfolding h using hi small by linarith
qed


lemma binary64_pos_pos:
  assumes "0 < x"
  shows "0 < binary64_pos x"
proof -
  have "(2::rat) powi (-53) < 1" by (simp add: power_int_minus field_simps)
  then have "0 < x * (1 - 2 powi (-53))" using assms by simp
  then show ?thesis using binary64_pos_err(1)[OF assms] by linarith
qed

lemma binary64_sign:
  "binary64 x = 0 \<longleftrightarrow> x = 0" "0 < binary64 x \<longleftrightarrow> 0 < x" "binary64 x < 0 \<longleftrightarrow> x < 0"
proof -
  have p: "0 < x \<Longrightarrow> 0 < binary64 x" by (simp add: binary64_def binary64_pos_pos)
  have n: "x < 0 \<Longrightarrow> binary64 x < 0" using binary64_pos_pos[of "- x"] by (simp add: binary64_def)
  have z: "binary64 0 = 0" by (simp add: binary64_def)
  consider "x = 0" | "0 < x" | "x < 0" by linarith
  then show "binary64 x = 0 \<longleftrightarrow> x = 0" using p n z by cases auto
  consider "x = 0" | "0 < x" | "x < 0" by linarith
  then show "0 < binary64 x \<longleftrightarrow> 0 < x" using p n z by cases auto
  consider "x = 0" | "0 < x" | "x < 0" by linarith
  then show "binary64 x < 0 \<longleftrightarrow> x < 0" using p n z by cases auto
qed





subsection \<open>The retry budget\<close>

lemma calculateIterations_Finite:
  "ms \<noteq> 0 \<Longrightarrow>
     calculateIterations m ms = Finite \<lfloor>binary64 (m / binary64 (ms / 1000))\<rfloor>"
  by (simp add: calculateIterations_def js_floor_div_def binary64_sign)

lemma calculateIterations_zero_interval:
  "0 < m \<Longrightarrow> calculateIterations m 0 = Infinity"
  by (simp add: calculateIterations_def js_floor_div_def binary64_def)

lemma calculateIterations_evaluated:
  "calculateIterations 60 2000 = Finite 30" "calculateIterations 4 2000 = Finite 2"
  "calculateIterations 1 2000 = Finite 0" "calculateIterations 60 0 = Infinity"
  "calculateIterations (-5) 2000 = Finite (-3)" "calculateIterations (-5) (-2000) = Finite 2"
  by code_simp+

subsection \<open>The passes of the three pollers\<close>

lemma signals_waitForUrl_catch: "signals (waitForUrl_catch e i n ms) = []"
  by (cases e) simp_all

lemma outputs_waitForUrl_catch: "outputs (waitForUrl_catch e i n ms) = []"
  by (cases e) simp_all

lemma signals_waitForUrl_body:
  "signals (snd (waitForUrl_body new_URL2 axios_get url path ms n i)) = []"
  by (simp add: waitForUrl_body_def signals_waitForUrl_catch split: sum.split)

lemma outputs_waitForUrl_body:
  "outputs (snd (waitForUrl_body new_URL2 axios_get url path ms n i)) = []"
  by (simp add: waitForUrl_body_def outputs_waitForUrl_catch split: sum.split)

lemma signals_waitForStatus_catch: "signals (waitForStatus_catch e i n ms) = []"
  by (cases e) (simp_all add: waitForStatus_catch_def)

lemma outputs_waitForStatus_catch: "outputs (waitForStatus_catch e i n ms) = []"
  by (cases e) (simp_all add: waitForStatus_catch_def)

lemma fst_waitForStatus_try: "fst (waitForStatus_try a data) = [ConsoleLog (StatusObject (case data of [] \<Rightarrow> None | s # older \<Rightarrow> Some s))]"
  by (simp add: waitForStatus_try_def Let_def)

lemma signals_waitForStatus_body:
  "signals (snd (waitForStatus_body lds d a ms n i)) = []"
  by (cases "lds i"; cases "waitForStatus_try a (projr (lds i))"; cases "snd (waitForStatus_try a (projr (lds i)))")
     (use fst_waitForStatus_try[of a "projr (lds i)"] in
      \<open>auto simp add: waitForStatus_body_def signals_waitForStatus_catch signals_append\<close>)

lemma outputs_waitForStatus_body:
  "outputs (snd (waitForStatus_body lds d a ms n i)) = []"
  by (cases "lds i"; cases "waitForStatus_try a (projr (lds i))"; cases "snd (waitForStatus_try a (projr (lds i)))")
     (use fst_waitForStatus_try[of a "projr (lds i)"] in
      \<open>auto simp add: waitForStatus_body_def outputs_waitForStatus_catch outputs_append\<close>)

lemma signals_waitForDeploymentToStart_body:
  "signals (snd (waitForDeploymentToStart_body ld sha env actor ms n i)) = []"
  by (simp add: waitForDeploymentToStart_body_def split: sum.split option.split)

lemma outputs_waitForDeploymentToStart_body:
  "outputs (snd (waitForDeploymentToStart_body ld sha env actor ms n i)) = []"
  by (simp add: waitForDeploymentToStart_body_def split: sum.split option.split)

lemma signals_concat_map:
  "(\<And>x. signals (f x) = []) \<Longrightarrow> signals (concat (map f xs)) = []"
  by (induction xs) (simp_all add: signals_append)

lemma outputs_concat_map:
  "(\<And>x. outputs (f x) = []) \<Longrightarrow> outputs (concat (map f xs)) = []"
  by (induction xs) (simp_all add: outputs_append)

lemma signals_passes: "(\<And>j. signals (snd (body j)) = []) \<Longrightarrow> signals (passes body i k) = []"
  unfolding passes_def by (rule signals_concat_map)

lemma outputs_passes: "(\<And>j. outputs (snd (body j)) = []) \<Longrightarrow> outputs (passes body i k) = []"
  unfolding passes_def by (rule outputs_concat_map)

subsection \<open>The outcome of a poller with a finite budget\<close>

lemma waitForDeploymentToStart_outcome:
  fixes ms maxTimeout :: number and listDeployments sha environment actorName
  defines "its \<equiv> calculateIterations maxTimeout ms"
  defines "discover \<equiv>
    waitForDeploymentToStart_body listDeployments sha environment actorName ms its"
  assumes "ms \<noteq> 0"
  shows "(\<exists>k d. less_count k its \<and> (\<forall>j<k. fst (discover j) = None)
              \<and> fst (discover k) = Some d
              \<and> waitForDeploymentToStart listDeployments sha environment actorName
                    (Some maxTimeout) (Some ms) tr
                  = Some (Some d, tr @ passes discover 0 (Suc k)))
         \<or> (\<exists>n. its = Finite n \<and> (\<forall>j. less_count j its \<longrightarrow> fst (discover j) = None)
              \<and> waitForDeploymentToStart listDeployments sha environment actorName
                    (Some maxTimeout) (Some ms) tr
                  = Some (None, tr @ passes discover 0 (nat n)))"
proof -
  obtain n where n: "its = Finite n"
    using assms(3) by (simp add: its_def calculateIterations_Finite)
  have w: "waitForDeploymentToStart listDeployments sha environment actorName
             (Some maxTimeout) (Some ms) tr = for_loop discover (Finite n) 0 tr"
    using n by (simp add: waitForDeploymentToStart_def its_def discover_def Let_def)
  show ?thesis
  proof (cases rule: for_loop_Finite_cases[of n discover tr])
    case (returned k r)
    then show ?thesis using w n by auto
  next
    case exhausted
    then show ?thesis using w n by auto
  qed
qed

lemma waitForStatus_outcome:
  fixes ms maxTimeout :: number and listDeploymentStatuses deployment_id allowInactive
  defines "its \<equiv> calculateIterations maxTimeout ms"
  defines "check \<equiv>
    waitForStatus_body listDeploymentStatuses deployment_id allowInactive ms its"
  assumes "ms \<noteq> 0" and "getOctokit token = None"
  shows "(\<exists>k s. less_count k its \<and> (\<forall>j<k. fst (check j) = None)
              \<and> fst (check k) = Some s
              \<and> waitForStatus getOctokit listDeploymentStatuses token deployment_id
                    maxTimeout allowInactive ms tr
                  = Some (Inr (Some s), tr @ passes check 0 (Suc k)))
         \<or> (\<exists>n. its = Finite n \<and> (\<forall>j. less_count j its \<longrightarrow> fst (check j) = None)
              \<and> waitForStatus getOctokit listDeploymentStatuses token deployment_id
                    maxTimeout allowInactive ms tr
                  = Some (Inr None, tr @ passes check 0 (nat n)
                      @ [SetFailed
                          ''Timeout reached: Unable to wait for an deployment to be successful'']))"
proof -
  obtain n where n: "its = Finite n"
    using assms(3) by (simp add: its_def calculateIterations_Finite)
  show ?thesis
  proof (cases rule: for_loop_Finite_cases[of n check tr])
    case (returned k r)
    then have "waitForStatus getOctokit listDeploymentStatuses token deployment_id
                    maxTimeout allowInactive ms tr
                  = Some (Inr (Some r), tr @ passes check 0 (Suc k))"
      using n assms(4) by (simp add: waitForStatus_def its_def check_def Let_def)
    then show ?thesis using returned n by auto
  next
    case exhausted
    then have "waitForStatus getOctokit listDeploymentStatuses token deployment_id
                    maxTimeout allowInactive ms tr
                  = Some (Inr None, tr @ passes check 0 (nat n)
                      @ [SetFailed
                          ''Timeout reached: Unable to wait for an deployment to be successful''])"
      using n assms(4) by (simp add: waitForStatus_def its_def check_def Let_def)
    then show ?thesis using exhausted n by auto
  qed
qed

lemma waitForUrl_outcome:
  fixes ms maxTimeout :: number and new_URL2 axios_get url path
  defines "its \<equiv> calculateIterations maxTimeout ms"
  defines "reach \<equiv> waitForUrl_body new_URL2 axios_get url path ms its"
  assumes "ms \<noteq> 0"
  shows "(\<exists>k. less_count k its \<and> (\<forall>j<k. fst (reach j) = None)
              \<and> fst (reach k) = Some ()
              \<and> waitForUrl new_URL2 axios_get url maxTimeout ms path tr
                  = Some (tr @ passes reach 0 (Suc k)))
         \<or> (\<exists>n. its = Finite n \<and> (\<forall>j. less_count j its \<longrightarrow> fst (reach j) = None)
              \<and> waitForUrl new_URL2 axios_get url maxTimeout ms path tr
                  = Some (tr @ passes reach 0 (nat n)
                      @ [SetFailed (''Timeout reached: Unable to connect to '' @ url)]))"
proof -
  obtain n where n: "its = Finite n"
    using assms(3) by (simp add: its_def calculateIterations_Finite)
  show ?thesis
  proof (cases rule: for_loop_Finite_cases[of n reach tr])
    case (returned k r)
    then have "waitForUrl new_URL2 axios_get url maxTimeout ms path tr
                  = Some (tr @ passes reach 0 (Suc k))"
      using n by (simp add: waitForUrl_def its_def reach_def Let_def)
    then show ?thesis using returned n by auto
  next
    case exhausted
    then have "waitForUrl new_URL2 axios_get url maxTimeout ms path tr
                  = Some (tr @ passes reach 0 (nat n)
                      @ [SetFailed (''Timeout reached: Unable to connect to '' @ url)])"
      using n by (simp add: waitForUrl_def its_def reach_def Let_def)
    then show ?thesis using exhausted n by auto
  qed
qed

subsection \<open>The interval that the orchestrator passes\<close>

lemma CHECK_INTERVAL_IN_MS_nonzero: "CHECK_INTERVAL_IN_MS inp \<noteq> 0"
  by (simp add: CHECK_INTERVAL_IN_MS_def number_or_def binary64_sign split: option.split)

subsection \<open>The calls of the discovery poller\<close>

lemma calls_waitForDeploymentToStart_body:
  "calls (snd (waitForDeploymentToStart_body ld sha env actor ms n i)) = [ListDeployments sha env]"
  by (simp add: waitForDeploymentToStart_body_def calls_def split: sum.split option.split)

lemma calls_concat_replicate:
  "(\<And>x. calls (f x) = [c]) \<Longrightarrow> calls (concat (map f xs)) = replicate (length xs) c"
  by (induction xs) (simp_all add: calls_append, simp add: calls_def)

lemma calls_passes_discover:
  "calls (passes (waitForDeploymentToStart_body ld sha env actor ms n) i k)
     = replicate (k - i) (ListDeployments sha env)"
  unfolding passes_def
  using calls_concat_replicate[of "\<lambda>j. snd (waitForDeploymentToStart_body ld sha env actor ms n j)"
      "ListDeployments sha env" "[i..<k]"]
  by (simp add: calls_waitForDeploymentToStart_body)

lemma find_first_match:
  "\<forall>x\<in>set earlier. \<not> P x \<Longrightarrow> P d \<Longrightarrow> find P (earlier @ d # later) = Some d"
  by (induction earlier) simp_all

subsection \<open>What a \<open>catch\<close> block emits, and a pass that fails before one that returns\<close>

lemma waitForUrl_catch_shape:
  "\<exists>l ls. waitForUrl_catch e i n ms = map ConsoleLog (l # ls) @ [Wait ms]"
proof (cases e)
  case (StatusError m)
  then show ?thesis by (intro exI[of _ "Thrown e"] exI[of _ "[]"]) simp
next
  case (ResponseError c m)
  then show ?thesis by (intro exI[of _ "GetStatusAttempt c i n"] exI[of _ "[]"]) simp
next
  case (RequestError m)
  then show ?thesis by (intro exI[of _ "GetNoResponseAttempt i n"] exI[of _ "[Text m]"]) simp
next
  case (Error m)
  then show ?thesis by (intro exI[of _ "Thrown e"] exI[of _ "[]"]) simp
qed

lemma waitForStatus_catch_shape:
  "\<exists>l ls. waitForStatus_catch e i n ms = map ConsoleLog (l # ls) @ [Wait ms]"
proof (cases e)
  case (StatusError m)
  show ?thesis
  proof (cases "str_includes m (''No status with state '' @ [CHR 0x22] @ ''success'' @ [CHR 0x22])")
    case True
    with StatusError show ?thesis
      by (intro exI[of _ "StatusRetry (i + 1) n"] exI[of _ "[]"])
         (simp add: waitForStatus_catch_def)
  next
    case False
    with StatusError show ?thesis
      by (intro exI[of _ "StatusRetry (i + 1) n"] exI[of _ "[Text m]"])
         (simp add: waitForStatus_catch_def)
  qed
next
  case (ResponseError c m)
  then show ?thesis
    by (intro exI[of _ "StatusRetry (i + 1) n"] exI[of _ "[Thrown e]"])
       (simp add: waitForStatus_catch_def)
next
  case (RequestError m)
  then show ?thesis
    by (intro exI[of _ "StatusRetry (i + 1) n"] exI[of _ "[Thrown e]"])
       (simp add: waitForStatus_catch_def)
next
  case (Error m)
  then show ?thesis
    by (intro exI[of _ "StatusRetry (i + 1) n"] exI[of _ "[Thrown e]"])
       (simp add: waitForStatus_catch_def)
qed

lemma for_loop_error_then_return:
  assumes "less_count (Suc k) n" and "\<forall>j<k. fst (body j) = None"
    and "fst (body k) = None" and "fst (body (Suc k)) = Some r"
  shows "for_loop body n 0 tr
           = Some (Some r, tr @ passes body 0 k @ snd (body k) @ snd (body (Suc k)))"
proof -
  have "\<forall>j. 0 \<le> j \<and> j < Suc k \<longrightarrow> fst (body j) = None"
    using assms(2,3) by (auto simp: less_Suc_eq)
  then have "for_loop body n 0 tr = Some (Some r, tr @ passes body 0 (Suc (Suc k)))"
    using assms(1,4) by (intro for_loop_first_return) auto
  then show ?thesis by (simp add: passes_last)
qed

subsection \<open>A pass of the status poller\<close>

lemma waitForStatus_catch_last:
  "\<exists>evs. waitForStatus_catch e i n ms = evs @ [Wait ms]"
  using waitForStatus_catch_shape[of e i n ms] by blast

lemma waitForStatus_body_falls_through:
  assumes "fst (waitForStatus_body lds d a ms n i) = None"
  shows "\<exists>evs. snd (waitForStatus_body lds d a ms n i) = evs @ [Wait ms]"
proof (cases "lds i")
  case (Inl e)
  obtain evs where "waitForStatus_catch e i n ms = evs @ [Wait ms]"
    using waitForStatus_catch_last by blast
  then have "snd (waitForStatus_body lds d a ms n i)
               = (ListDeploymentStatuses d # evs) @ [Wait ms]"
    using Inl by (simp add: waitForStatus_body_def)
  then show ?thesis by blast
next
  case (Inr data)
  obtain l r where t: "waitForStatus_try a data = (l, r)" by (cases "waitForStatus_try a data")
  show ?thesis
  proof (cases r)
    case (Inl e)
    obtain evs where "waitForStatus_catch e i n ms = evs @ [Wait ms]"
      using waitForStatus_catch_last by blast
    then have "snd (waitForStatus_body lds d a ms n i)
                 = (ListDeploymentStatuses d # l @ evs) @ [Wait ms]"
      using Inr t Inl by (simp add: waitForStatus_body_def)
    then show ?thesis by blast
  next
    case (Inr s)
    then have "fst (waitForStatus_body lds d a ms n i) = Some s"
      using \<open>lds i = Inr data\<close> t by (simp add: waitForStatus_body_def)
    with assms show ?thesis by simp
  qed
qed

lemma waitForStatus_body_latest:
  assumes "lds i = Inr (s # older)"
  shows "waitForStatus_body lds d a ms n i = waitForStatus_body (\<lambda>j. Inr [s]) d a ms n i"
  using assms by (simp add: waitForStatus_body_def waitForStatus_try_def Let_def)

lemma waitForStatus_body_class:
  assumes "lds i = Inr (s # older)"
  shows "fst (waitForStatus_body lds d a ms n i)
           = (if state s = ''inactive'' then (if a then Some s else None)
              else if state s = ''success'' then Some s else None)"
  using assms by (simp add: waitForStatus_body_def waitForStatus_try_def Let_def)

lemma waitForStatus_body_returns:
  assumes "lds i = Inr (s # older)"
    and "state s = ''success'' \<or> state s = ''inactive'' \<and> a"
  shows "waitForStatus_body lds d a ms n i
           = (Some s, [ListDeploymentStatuses d, ConsoleLog (StatusObject (Some s))])"
  using assms by (auto simp add: waitForStatus_body_def waitForStatus_try_def Let_def)

subsection \<open>The budget of a timeout shorter than the interval\<close>


text \<open>
  The margin is needed. The binary64 value nearest to \<open>0.7\<close> is below \<open>0.7\<close>, so
  1000 times it is below 700; yet \<open>700 / 1000\<close> is rounded to that same value, and the
  budget is one iteration.
\<close>

lemma calculateIterations_no_margin:
  "binary64 (7 / 10) * 1000 < 700 \<and> calculateIterations (binary64 (7 / 10)) 700 = Finite 1"
  by code_simp

subsection \<open>The stages of a run\<close>

lemma later_concat_map:
  "(\<And>x. filter later_stage_call (f x) = []) \<Longrightarrow> filter later_stage_call (concat (map f xs)) = []"
  by (induction xs) simp_all

lemma later_waitForDeploymentToStart_body:
  "filter later_stage_call (snd (waitForDeploymentToStart_body ld sha env actor ms n i)) = []"
  by (simp add: waitForDeploymentToStart_body_def split: sum.split option.split)

lemma later_passes_discover:
  "filter later_stage_call (passes (waitForDeploymentToStart_body ld sha env actor ms n) i k) = []"
  unfolding passes_def by (rule later_concat_map) (rule later_waitForDeploymentToStart_body)

lemma discovery_stage:
  fixes ms m :: number
  assumes "ms \<noteq> 0"
  shows "\<exists>r new. waitForDeploymentToStart ld sha env actor (Some m) (Some ms) tr
                    = Some (r, tr @ new)
           \<and> signals new = [] \<and> outputs new = [] \<and> filter later_stage_call new = []"
proof -
  let ?body = "waitForDeploymentToStart_body ld sha env actor ms (calculateIterations m ms)"
  have q: "signals (passes ?body i k) = [] \<and> outputs (passes ?body i k) = []
            \<and> filter later_stage_call (passes ?body i k) = []" for i k
    by (simp add: signals_passes outputs_passes signals_waitForDeploymentToStart_body
        outputs_waitForDeploymentToStart_body later_passes_discover)
  from waitForDeploymentToStart_outcome[OF assms, of m ld sha env actor tr]
  show ?thesis using q by blast
qed

lemma status_stage:
  fixes ms m :: number
  assumes "ms \<noteq> 0"
  shows "(\<exists>e. waitForStatus getOctokit lds token d m a ms tr = Some (Inl e, tr))
       \<or> (\<exists>s new. waitForStatus getOctokit lds token d m a ms tr = Some (Inr (Some s), tr @ new)
              \<and> signals new = [] \<and> outputs new = [])
       \<or> (\<exists>new. waitForStatus getOctokit lds token d m a ms tr = Some (Inr None, tr @ new)
              \<and> signals new \<noteq> [] \<and> outputs new = [])"
proof (cases "getOctokit token")
  case (Some e)
  then show ?thesis by (simp add: waitForStatus_def)
next
  case None
  let ?body = "waitForStatus_body lds d a ms (calculateIterations m ms)"
  have q: "signals (passes ?body i k) = [] \<and> outputs (passes ?body i k) = []" for i k
    by (simp add: signals_passes outputs_passes signals_waitForStatus_body
        outputs_waitForStatus_body)
  from waitForStatus_outcome[where getOctokit = getOctokit and token = token, OF assms None,
      of m lds d a tr]
  show ?thesis
  proof (elim disjE exE conjE)
    fix k s
    assume "waitForStatus getOctokit lds token d m a ms tr
              = Some (Inr (Some s), tr @ passes ?body 0 (Suc k))"
    then show ?thesis using q by blast
  next
    fix n
    assume "waitForStatus getOctokit lds token d m a ms tr
              = Some (Inr None, tr @ passes ?body 0 (nat n) @ [SetFailed
                  ''Timeout reached: Unable to wait for an deployment to be successful''])"
    moreover have "signals (passes ?body 0 (nat n) @ [SetFailed
                  ''Timeout reached: Unable to wait for an deployment to be successful'']) \<noteq> []"
      by (simp add: signals_append)
    moreover have "outputs (passes ?body 0 (nat n) @ [SetFailed
                  ''Timeout reached: Unable to wait for an deployment to be successful'']) = []"
      using q by (simp add: outputs_append)
    ultimately show ?thesis by blast
  qed
qed

lemma waitForUrl_body_returned:
  assumes "fst (waitForUrl_body nu ag url path ms n i) = Some u"
  shows "\<exists>uri. snd (waitForUrl_body nu ag url path ms n i) = [HttpGet uri, ConsoleLog ReceivedSuccess]"
  using assms by (auto simp: waitForUrl_body_def split: sum.splits)

lemma url_stage:
  fixes ms m :: number
  assumes "ms \<noteq> 0"
  shows "\<exists>new. waitForUrl nu ag url m ms path tr = Some (tr @ new) \<and> outputs new = []
           \<and> ((signals new = [] \<and> new \<noteq> [] \<and> last new = ConsoleLog ReceivedSuccess)
              \<or> (\<exists>pre. new = pre @ [SetFailed (''Timeout reached: Unable to connect to '' @ url)]
                    \<and> signals pre = []))"
proof -
  let ?body = "waitForUrl_body nu ag url path ms (calculateIterations m ms)"
  have q: "signals (passes ?body i k) = [] \<and> outputs (passes ?body i k) = []" for i k
    by (simp add: signals_passes outputs_passes signals_waitForUrl_body outputs_waitForUrl_body)
  from waitForUrl_outcome[OF assms, of m nu ag url path tr]
  show ?thesis
  proof (elim disjE exE conjE)
    fix k
    assume ret: "fst (?body k) = Some ()"
      and res: "waitForUrl nu ag url m ms path tr = Some (tr @ passes ?body 0 (Suc k))"
    obtain uri where "snd (?body k) = [HttpGet uri, ConsoleLog ReceivedSuccess]"
      using waitForUrl_body_returned[OF ret] by blast
    then have "passes ?body 0 (Suc k) \<noteq> []
        \<and> last (passes ?body 0 (Suc k)) = ConsoleLog ReceivedSuccess"
      by (simp add: passes_last)
    with res q show ?thesis by blast
  next
    fix n
    assume res: "waitForUrl nu ag url m ms path tr
              = Some (tr @ passes ?body 0 (nat n)
                  @ [SetFailed (''Timeout reached: Unable to connect to '' @ url)])"
    have "outputs (passes ?body 0 (nat n)
                  @ [SetFailed (''Timeout reached: Unable to connect to '' @ url)]) = []"
      using q by (simp add: outputs_append)
    with res q show ?thesis by blast
  qed
qed

text \<open>What the body of \<open>run\<close> can leave behind: an error thrown before any output, or one
  of the three endings.\<close>

lemma run_target_verdict:
  fixes ms m :: number
  assumes "ms \<noteq> 0" and "outputs tr = []" and "status \<noteq> None \<longrightarrow> signals tr = []"
  shows "\<exists>r tr'. run_target ctx m ms p status tr = Some (r, tr')
           \<and> ((\<exists>e. r = Inl e \<and> outputs tr' = [])
              \<or> (r = Inr () \<and> (run_succeeded tr' \<or> run_failed_without_outputs tr'
                    \<or> run_timed_out_with_outputs tr')))"
proof (cases status)
  case None
  then show ?thesis using assms(2) by (simp add: run_target_def)
next
  case (Some st)
  then have sig: "signals tr = []" using assms(3) by simp
  let ?s = "case environment_url st of None \<Rightarrow> ''undefined'' | Some u \<Rightarrow> u"
  show ?thesis
  proof (cases "js_new_URL ctx ?s")
    case (Inl e)
    then show ?thesis using Some assms(2) by (simp add: run_target_def Let_def)
  next
    case (Inr h)
    have absent: "run_failed_without_outputs
                    (tr @ [SetFailed ''no target_url found in the status check''])"
      using assms(2) by (simp add: run_failed_without_outputs_def signals_append outputs_append)
    show ?thesis
    proof (cases "environment_url st")
      case None
      then show ?thesis using Some Inr absent by (simp add: run_target_def Let_def)
    next
      case (Some u)
      note u = this
      show ?thesis
      proof (cases "js_Boolean u")
        case False
        then show ?thesis
          using \<open>status = Some st\<close> Inr u absent by (simp add: run_target_def Let_def)
      next
        case True
        let ?tr0 = "tr @ [ConsoleLog (TargetUrl u), ConsoleLog (TargetHost h),
                       SetOutput ''url'' u, SetOutput ''host'' h, ConsoleLog (WaitingFor u)]"
        have s0: "signals ?tr0 = []" using sig by (simp add: signals_append)
        have o0: "outputs ?tr0 = [(''url'', u), (''host'', h)]"
          using assms(2) by (simp add: outputs_append)
        obtain new where w: "waitForUrl (js_new_URL2 ctx) (http_get ctx) u m ms p ?tr0
                               = Some (?tr0 @ new)"
          and on: "outputs new = []"
          and end_: "(signals new = [] \<and> new \<noteq> [] \<and> last new = ConsoleLog ReceivedSuccess)
              \<or> (\<exists>pre. new = pre @ [SetFailed (''Timeout reached: Unable to connect to '' @ u)]
                    \<and> signals pre = [])"
          using url_stage[OF assms(1), of "js_new_URL2 ctx" "http_get ctx" u m p ?tr0] by blast
        have res: "run_target ctx m ms p status tr = Some (Inr (), ?tr0 @ new)"
          using \<open>status = Some st\<close> Inr u True w by (simp add: run_target_def Let_def)
        have oo: "outputs (?tr0 @ new) = [(''url'', u), (''host'', h)]"
          using o0 on by (simp only: outputs_append[of ?tr0 new] append_Nil2)
        from end_ have "run_succeeded (?tr0 @ new) \<or> run_timed_out_with_outputs (?tr0 @ new)"
        proof
          assume a: "signals new = [] \<and> new \<noteq> [] \<and> last new = ConsoleLog ReceivedSuccess"
          have "signals (?tr0 @ new) = []"
            using s0 a by (simp only: signals_append[of ?tr0 new] append_Nil2)
          moreover have "last (?tr0 @ new) = ConsoleLog ReceivedSuccess" using a by simp
          ultimately have "run_succeeded (?tr0 @ new)"
            using oo a unfolding run_succeeded_def by simp
          then show ?thesis ..
        next
          assume "\<exists>pre. new = pre @ [SetFailed (''Timeout reached: Unable to connect to '' @ u)]
                    \<and> signals pre = []"
          then obtain pre where
            n: "new = pre @ [SetFailed (''Timeout reached: Unable to connect to '' @ u)]"
            and sp: "signals pre = []" by blast
          have "signals new = [''Timeout reached: Unable to connect to '' @ u]"
            using n sp by (simp add: signals_append)
          then have "signals (?tr0 @ new) = [''Timeout reached: Unable to connect to '' @ u]"
            using s0 by (simp only: signals_append[of ?tr0 new] append_Nil)
          moreover have "last (?tr0 @ new)
                           = SetFailed (''Timeout reached: Unable to connect to '' @ u)"
            using n by simp
          ultimately have "run_timed_out_with_outputs (?tr0 @ new)"
            using oo n unfolding run_timed_out_with_outputs_def by simp
          then show ?thesis ..
        qed
        with res show ?thesis by blast
      qed
    qed
  qed
qed

lemma run_stages_verdict:
  assumes "signals tr = []" and "outputs tr = []"
  shows "\<exists>r tr'. run_stages inp ctx tok sha tr = Some (r, tr')
           \<and> ((\<exists>e. r = Inl e \<and> outputs tr' = [])
              \<or> (r = Inr () \<and> (run_succeeded tr' \<or> run_failed_without_outputs tr'
                    \<or> run_timed_out_with_outputs tr')))"
proof -
  have ms: "CHECK_INTERVAL_IN_MS inp \<noteq> 0" by (rule CHECK_INTERVAL_IN_MS_nonzero)
  obtain d new where disc: "waitForDeploymentToStart (api_listDeployments ctx) sha
        (input_environment inp) (input_actor_name inp) (Some (MAX_TIMEOUT inp))
        (Some (CHECK_INTERVAL_IN_MS inp)) tr = Some (d, tr @ new)"
    and sn: "signals new = []" and on: "outputs new = []"
    using discovery_stage[OF ms] by blast
  have s1: "signals (tr @ new) = []" using assms(1) sn by (simp add: signals_append)
  have o1: "outputs (tr @ new) = []" using assms(2) on by (simp add: outputs_append)
  show ?thesis
  proof (cases d)
    case None
    have "run_failed_without_outputs ((tr @ new) @ [SetFailed ''no deployment found, exiting...''])"
      using o1 unfolding run_failed_without_outputs_def
      by (simp only: signals_append outputs_append) simp
    then show ?thesis using disc None by (simp add: run_stages_def)
  next
    case (Some deployment)
    let ?w = "waitForStatus (ctx_getOctokit ctx) (api_listDeploymentStatuses ctx) tok
                (dep_id deployment) (MAX_TIMEOUT inp) (ALLOW_INACTIVE inp)
                (CHECK_INTERVAL_IN_MS inp) (tr @ new)"
    from status_stage[OF ms, of "ctx_getOctokit ctx" "api_listDeploymentStatuses ctx" tok
        "dep_id deployment" "MAX_TIMEOUT inp" "ALLOW_INACTIVE inp" "tr @ new"]
    show ?thesis
    proof (elim disjE exE conjE)
      fix e assume "?w = Some (Inl e, tr @ new)"
      then show ?thesis using disc Some o1 by (simp add: run_stages_def)
    next
      fix s new2
      assume w: "?w = Some (Inr (Some s), (tr @ new) @ new2)"
        and "signals new2 = []" and "outputs new2 = []"
      then have s2: "signals ((tr @ new) @ new2) = []"
        and o2: "outputs ((tr @ new) @ new2) = []"
        using s1 o1 by (simp_all only: signals_append outputs_append append_Nil)
      have v: "\<exists>r tr'. run_target ctx (MAX_TIMEOUT inp) (CHECK_INTERVAL_IN_MS inp) (PATH inp)
                    (Some s) ((tr @ new) @ new2) = Some (r, tr')
           \<and> ((\<exists>e. r = Inl e \<and> outputs tr' = [])
              \<or> (r = Inr () \<and> (run_succeeded tr' \<or> run_failed_without_outputs tr'
                    \<or> run_timed_out_with_outputs tr')))"
        by (rule run_target_verdict[OF ms o2]) (use s2 in simp)
      have "run_stages inp ctx tok sha tr
              = run_target ctx (MAX_TIMEOUT inp) (CHECK_INTERVAL_IN_MS inp) (PATH inp)
                    (Some s) ((tr @ new) @ new2)"
        using disc Some w by (simp add: run_stages_def)
      with v show ?thesis by (simp only:)
    next
      fix new2
      assume w: "?w = Some (Inr None, (tr @ new) @ new2)" and "outputs new2 = []"
      then have o2: "outputs ((tr @ new) @ new2) = []"
        using o1 by (simp only: outputs_append append_Nil)
      have v: "\<exists>r tr'. run_target ctx (MAX_TIMEOUT inp) (CHECK_INTERVAL_IN_MS inp) (PATH inp)
                    None ((tr @ new) @ new2) = Some (r, tr')
           \<and> ((\<exists>e. r = Inl e \<and> outputs tr' = [])
              \<or> (r = Inr () \<and> (run_succeeded tr' \<or> run_failed_without_outputs tr'
                    \<or> run_timed_out_with_outputs tr')))"
        by (rule run_target_verdict[OF ms o2]) simp
      have "run_stages inp ctx tok sha tr
              = run_target ctx (MAX_TIMEOUT inp) (CHECK_INTERVAL_IN_MS inp) (PATH inp)
                    None ((tr @ new) @ new2)"
        using disc Some w by (simp add: run_stages_def)
      with v show ?thesis by (simp only:)
    qed
  qed
qed

lemma getShaForPullRequest_cases:
  assumes "signals tr = []" and "outputs tr = []"
  shows "(\<exists>e tr2. getShaForPullRequest ctx tr = (Inl e, tr2) \<and> outputs tr2 = [])
       \<or> (\<exists>tr2. getShaForPullRequest ctx tr = (Inr None, tr2) \<and> outputs tr2 = [])
       \<or> (\<exists>sha tr2. getShaForPullRequest ctx tr = (Inr (Some sha), tr2)
              \<and> signals tr2 = [] \<and> outputs tr2 = [])"
proof (cases "ctx_pull_request ctx")
  case None
  then show ?thesis using assms by (simp add: getShaForPullRequest_def)
next
  case (Some PR_NUMBER)
  show ?thesis
  proof (cases PR_NUMBER)
    case None
    then show ?thesis
      using Some assms by (simp add: getShaForPullRequest_def outputs_append)
  next
    case (Some n)
    note n = this
    show ?thesis
    proof (cases "n = 0")
      case True
      then show ?thesis
        using \<open>ctx_pull_request ctx = Some PR_NUMBER\<close> n assms
        by (simp add: getShaForPullRequest_def outputs_append)
    next
      case False
      show ?thesis
      proof (cases "api_pulls_get ctx")
        case (Inl e)
        then show ?thesis
          using \<open>ctx_pull_request ctx = Some PR_NUMBER\<close> n False assms
          by (simp add: getShaForPullRequest_def outputs_append)
      next
        case (Inr p)
        obtain st prSHA where p: "p = (st, prSHA)" by (cases p)
        show ?thesis
          using \<open>ctx_pull_request ctx = Some PR_NUMBER\<close> n False assms Inr p
          by (cases "st = 200")
             (simp_all add: getShaForPullRequest_def outputs_append signals_append)
      qed
    qed
  qed
qed

lemma resolve_sha_cases:
  assumes "signals tr = []" and "outputs tr = []"
  shows "(\<exists>e tr2. resolve_sha ctx tr = (Inl e, tr2) \<and> outputs tr2 = [])
       \<or> (\<exists>tr2. resolve_sha ctx tr = (Inr None, tr2) \<and> outputs tr2 = [])
       \<or> (\<exists>sha tr2. resolve_sha ctx tr = (Inr (Some sha), tr2)
              \<and> signals tr2 = [] \<and> outputs tr2 = [])"
proof (cases "ctx_pull_request ctx \<noteq> None")
  case True
  then show ?thesis
    using getShaForPullRequest_cases[OF assms, of ctx] by (simp add: resolve_sha_def)
next
  case False
  then show ?thesis
    using assms by (cases "ctx_sha ctx") (auto simp: resolve_sha_def)
qed

lemma run_try_verdict:
  assumes "ctx_getOctokit ctx [] \<noteq> None"
  shows "\<exists>r tr'. run_try inp ctx [] = Some (r, tr')
           \<and> ((\<exists>e. r = Inl e \<and> outputs tr' = [])
              \<or> (r = Inr () \<and> (run_succeeded tr' \<or> run_failed_without_outputs tr'
                    \<or> run_timed_out_with_outputs tr')))"
proof (cases "input_token inp")
  case (Inl e)
  then show ?thesis by (simp add: run_try_def)
next
  case (Inr tok)
  show ?thesis
  proof (cases "ctx_getOctokit ctx tok")
    case (Some e)
    then show ?thesis using Inr by (simp add: run_try_def Let_def outputs_append)
  next
    case None
    then have tok: "tok \<noteq> []" using assms by auto
    show ?thesis
    proof (cases "ctx_repo ctx")
      case (Some e)
      then show ?thesis using Inr None tok by (simp add: run_try_def Let_def js_Boolean_def)
    next
      case repo: None
      have unable: "outputs tr2 = [] \<Longrightarrow> run_failed_without_outputs
                      (tr2 @ [SetFailed ''Unable to determine SHA. Exiting...''])" for tr2
        unfolding run_failed_without_outputs_def
        by (simp only: signals_append outputs_append) simp
      have start: "run_try inp ctx [] =
          (case resolve_sha ctx [] of
             (Inl e, tr2) \<Rightarrow> Some (Inl e, tr2)
           | (Inr None, tr2) \<Rightarrow>
               Some (Inr (), tr2 @ [SetFailed ''Unable to determine SHA. Exiting...''])
           | (Inr (Some sha), tr2) \<Rightarrow>
               if \<not> js_Boolean sha then
                 Some (Inr (), tr2 @ [SetFailed ''Unable to determine SHA. Exiting...''])
               else run_stages inp ctx tok sha tr2)"
        using Inr None repo tok by (simp add: run_try_def Let_def js_Boolean_def)
      have "(\<exists>e tr2. resolve_sha ctx [] = (Inl e, tr2) \<and> outputs tr2 = [])
       \<or> (\<exists>tr2. resolve_sha ctx [] = (Inr None, tr2) \<and> outputs tr2 = [])
       \<or> (\<exists>sha tr2. resolve_sha ctx [] = (Inr (Some sha), tr2)
              \<and> signals tr2 = [] \<and> outputs tr2 = [])"
        by (rule resolve_sha_cases) simp_all
      then show ?thesis
      proof (elim disjE exE conjE)
        fix e tr2 assume "resolve_sha ctx [] = (Inl e, tr2)" "outputs tr2 = []"
        then show ?thesis using start by simp
      next
        fix tr2 assume "resolve_sha ctx [] = (Inr None, tr2)" "outputs tr2 = []"
        then show ?thesis using start unable by simp
      next
        fix sha tr2
        assume r: "resolve_sha ctx [] = (Inr (Some sha), tr2)"
          and s2: "signals tr2 = []" and o2: "outputs tr2 = []"
        show ?thesis
        proof (cases "js_Boolean sha")
          case False
          then show ?thesis using start r unable[OF o2] by simp
        next
          case True
          then show ?thesis
            using start r run_stages_verdict[OF s2 o2, of inp ctx tok sha] by simp
        qed
      qed
    qed
  qed
qed

lemma run_verdict:
  assumes "ctx_getOctokit ctx [] \<noteq> None"
  shows "\<exists>tr. run inp ctx = Some tr
           \<and> (run_succeeded tr \<or> run_failed_without_outputs tr
                \<or> run_timed_out_with_outputs tr)"
proof -
  obtain r tr' where t: "run_try inp ctx [] = Some (r, tr')"
    and v: "(\<exists>e. r = Inl e \<and> outputs tr' = [])
              \<or> (r = Inr () \<and> (run_succeeded tr' \<or> run_failed_without_outputs tr'
                    \<or> run_timed_out_with_outputs tr'))"
    using run_try_verdict[OF assms] by blast
  from v show ?thesis
  proof
    assume "\<exists>e. r = Inl e \<and> outputs tr' = []"
    then obtain e where e: "r = Inl e" and o: "outputs tr' = []" by blast
    have "run_failed_without_outputs (tr' @ [SetFailed (message e)])"
      using o unfolding run_failed_without_outputs_def
      by (simp only: signals_append outputs_append) simp
    then show ?thesis using t e by (simp add: run_def)
  next
    assume "r = Inr () \<and> (run_succeeded tr' \<or> run_failed_without_outputs tr'
                    \<or> run_timed_out_with_outputs tr')"
    then show ?thesis using t by (simp add: run_def)
  qed
qed

subsection \<open>The scenario, evaluated\<close>

lemma scenario_parameters:
  "MAX_TIMEOUT scenario_inputs = 60" "CHECK_INTERVAL_IN_MS scenario_inputs = 2000"
  "PATH scenario_inputs = ''/''" "ALLOW_INACTIVE scenario_inputs = False"
  "calculateIterations 60 2000 = Finite 30"
  by code_simp+

lemma scenario_discovery:
  "waitForDeploymentToStart (api_listDeployments scenario_world) ''abc123'' ''preview'' ''bot-x''
     (Some 60) (Some 2000) []
   = Some (Some scenario_deployment,
       [ListDeployments ''abc123'' ''preview'',
        ConsoleLog (DeploymentRetry ''bot-x'' 1 (Finite 30)), Wait 2000,
        ListDeployments ''abc123'' ''preview'',
        ConsoleLog (DeploymentRetry ''bot-x'' 2 (Finite 30)), Wait 2000,
        ListDeployments ''abc123'' ''preview'',
        ConsoleLog (DeploymentObject scenario_deployment)])"
  by (simp add: waitForDeploymentToStart_def scenario_parameters
      for_loop_next for_loop_return waitForDeploymentToStart_body_def scenario_world_def
      find_deployment_def scenario_deployment_def Let_def numeral_2_eq_2)

lemma scenario_status_poll:
  "waitForStatus (ctx_getOctokit scenario_world) (api_listDeploymentStatuses scenario_world)
     ''ghp_token'' 42 60 False 2000 tr
   = Some (Inr (Some scenario_status),
       tr @ [ListDeploymentStatuses 42,
        ConsoleLog (StatusObject (Some \<lparr>state = ''pending'', environment_url = Some []\<rparr>)),
        ConsoleLog (StatusRetry 1 (Finite 30)), Wait 2000,
        ListDeploymentStatuses 42, ConsoleLog (StatusObject (Some scenario_status))])"
  by (simp add: waitForStatus_def scenario_parameters
      for_loop_next for_loop_return waitForStatus_body_def waitForStatus_try_def
      waitForStatus_catch_def scenario_world_def scenario_status_def Let_def)

lemma scenario_reach:
  "waitForUrl (js_new_URL2 scenario_world) (http_get scenario_world)
      ''https://preview-42.example.com'' 60 2000 ''/'' tr
   = Some (tr @ [HttpGet ''https://preview-42.example.com/'',
           ConsoleLog (GetNoResponseAttempt 0 (Finite 30)),
           ConsoleLog (Text ''socket hang up''), Wait 2000,
           HttpGet ''https://preview-42.example.com/'', ConsoleLog ReceivedSuccess])"
  by (simp add: waitForUrl_def scenario_parameters
      for_loop_next for_loop_return waitForUrl_body_def scenario_world_def Let_def)

lemma scenario_run:
  "run scenario_inputs scenario_world
   = Some [ListDeployments ''abc123'' ''preview'',
        ConsoleLog (DeploymentRetry ''bot-x'' 1 (Finite 30)), Wait 2000,
        ListDeployments ''abc123'' ''preview'',
        ConsoleLog (DeploymentRetry ''bot-x'' 2 (Finite 30)), Wait 2000,
        ListDeployments ''abc123'' ''preview'',
        ConsoleLog (DeploymentObject scenario_deployment),
        ListDeploymentStatuses 42,
        ConsoleLog (StatusObject (Some \<lparr>state = ''pending'', environment_url = Some []\<rparr>)),
        ConsoleLog (StatusRetry 1 (Finite 30)), Wait 2000,
        ListDeploymentStatuses 42, ConsoleLog (StatusObject (Some scenario_status)),
        ConsoleLog (TargetUrl ''https://preview-42.example.com''),
        ConsoleLog (TargetHost ''preview-42.example.com''),
        SetOutput ''url'' ''https://preview-42.example.com'',
        SetOutput ''host'' ''preview-42.example.com'',
        ConsoleLog (WaitingFor ''https://preview-42.example.com''),
        HttpGet ''https://preview-42.example.com/'',
        ConsoleLog (GetNoResponseAttempt 0 (Finite 30)),
        ConsoleLog (Text ''socket hang up''), Wait 2000,
        HttpGet ''https://preview-42.example.com/'', ConsoleLog ReceivedSuccess]"
proof -
  have inputs: "input_token scenario_inputs = Inr ''ghp_token''"
    "input_environment scenario_inputs = ''preview''"
    "input_actor_name scenario_inputs = ''bot-x''"
    by (simp_all add: scenario_inputs_def)
  have world: "ctx_getOctokit scenario_world ''ghp_token'' = None"
    "ctx_repo scenario_world = None"
    "resolve_sha scenario_world [] = (Inr (Some ''abc123''), [])"
    "js_new_URL scenario_world ''https://preview-42.example.com''
       = Inr ''preview-42.example.com''"
    by (simp_all add: scenario_world_def resolve_sha_def js_Boolean_def scenario_host_def)
  have target: "run_target scenario_world 60 2000 ''/'' (Some scenario_status) tr
      = Some (Inr (), tr @ [ConsoleLog (TargetUrl ''https://preview-42.example.com''),
        ConsoleLog (TargetHost ''preview-42.example.com''),
        SetOutput ''url'' ''https://preview-42.example.com'',
        SetOutput ''host'' ''preview-42.example.com'',
        ConsoleLog (WaitingFor ''https://preview-42.example.com''),
        HttpGet ''https://preview-42.example.com/'',
        ConsoleLog (GetNoResponseAttempt 0 (Finite 30)),
        ConsoleLog (Text ''socket hang up''), Wait 2000,
        HttpGet ''https://preview-42.example.com/'', ConsoleLog ReceivedSuccess])" for tr
    using world(4) by (simp add: run_target_def scenario_status_def js_Boolean_def scenario_reach)
  have id: "dep_id scenario_deployment = 42" by (simp add: scenario_deployment_def)
  have "run_stages scenario_inputs scenario_world ''ghp_token'' ''abc123'' []
      = Some (Inr (), [ListDeployments ''abc123'' ''preview'',
        ConsoleLog (DeploymentRetry ''bot-x'' 1 (Finite 30)), Wait 2000,
        ListDeployments ''abc123'' ''preview'',
        ConsoleLog (DeploymentRetry ''bot-x'' 2 (Finite 30)), Wait 2000,
        ListDeployments ''abc123'' ''preview'',
        ConsoleLog (DeploymentObject scenario_deployment),
        ListDeploymentStatuses 42,
        ConsoleLog (StatusObject (Some \<lparr>state = ''pending'', environment_url = Some []\<rparr>)),
        ConsoleLog (StatusRetry 1 (Finite 30)), Wait 2000,
        ListDeploymentStatuses 42, ConsoleLog (StatusObject (Some scenario_status)),
        ConsoleLog (TargetUrl ''https://preview-42.example.com''),
        ConsoleLog (TargetHost ''preview-42.example.com''),
        SetOutput ''url'' ''https://preview-42.example.com'',
        SetOutput ''host'' ''preview-42.example.com'',
        ConsoleLog (WaitingFor ''https://preview-42.example.com''),
        HttpGet ''https://preview-42.example.com/'',
        ConsoleLog (GetNoResponseAttempt 0 (Finite 30)),
        ConsoleLog (Text ''socket hang up''), Wait 2000,
        HttpGet ''https://preview-42.example.com/'', ConsoleLog ReceivedSuccess])"
    by (simp add: run_stages_def inputs scenario_parameters scenario_discovery id
        scenario_status_poll target)
  then show ?thesis
    by (simp add: run_def run_try_def inputs world js_Boolean_def Let_def)
qed

subsection \<open>A run whose preview never answers\<close>

lemma short_parameters:
  "MAX_TIMEOUT short_inputs = 4" "CHECK_INTERVAL_IN_MS short_inputs = 2000"
  "PATH short_inputs = ''/''" "ALLOW_INACTIVE short_inputs = False"
  "calculateIterations 4 2000 = Finite 2"
  "input_token short_inputs = Inr ''ghp_token''"
  "input_environment short_inputs = ''preview''"
  "input_actor_name short_inputs = ''bot-x''"
  by code_simp+

lemma run_try_start:
  assumes "input_token inp = Inr tok" and "tok \<noteq> []" and "ctx_getOctokit ctx tok = None"
    and "ctx_repo ctx = None" and "resolve_sha ctx [] = (Inr (Some sha), [])" and "sha \<noteq> []"
  shows "run_try inp ctx [] = run_stages inp ctx tok sha []"
  using assms by (simp add: run_try_def Let_def js_Boolean_def)

lemma unreachable_run:
  "run short_inputs unreachable_world
   = Some [ListDeployments ''abc123'' ''preview'',
        ConsoleLog (DeploymentObject scenario_deployment),
        ListDeploymentStatuses 42, ConsoleLog (StatusObject (Some scenario_status)),
        ConsoleLog (TargetUrl ''https://preview-42.example.com''),
        ConsoleLog (TargetHost ''preview-42.example.com''),
        SetOutput ''url'' ''https://preview-42.example.com'',
        SetOutput ''host'' ''preview-42.example.com'',
        ConsoleLog (WaitingFor ''https://preview-42.example.com''),
        HttpGet ''https://preview-42.example.com/'',
        ConsoleLog (GetNoResponseAttempt 0 (Finite 2)),
        ConsoleLog (Text ''socket hang up''), Wait 2000,
        HttpGet ''https://preview-42.example.com/'',
        ConsoleLog (GetNoResponseAttempt 1 (Finite 2)),
        ConsoleLog (Text ''socket hang up''), Wait 2000,
        SetFailed ''Timeout reached: Unable to connect to https://preview-42.example.com'']"
proof -
  have start: "run_try short_inputs unreachable_world []
      = run_stages short_inputs unreachable_world ''ghp_token'' ''abc123'' []"
    by (rule run_try_start)
       (simp_all add: short_parameters unreachable_world_def deployed_world_def
         scenario_world_def resolve_sha_def js_Boolean_def)
  have disc: "waitForDeploymentToStart (api_listDeployments unreachable_world) ''abc123''
      ''preview'' ''bot-x'' (Some 4) (Some 2000) []
      = Some (Some scenario_deployment, [ListDeployments ''abc123'' ''preview'',
          ConsoleLog (DeploymentObject scenario_deployment)])"
    by (simp add: waitForDeploymentToStart_def short_parameters for_loop_return
        waitForDeploymentToStart_body_def unreachable_world_def deployed_world_def
        find_deployment_def scenario_deployment_def Let_def)
  have stat: "waitForStatus (ctx_getOctokit unreachable_world)
      (api_listDeploymentStatuses unreachable_world) ''ghp_token'' 42 4 False 2000 tr
      = Some (Inr (Some scenario_status), tr @ [ListDeploymentStatuses 42,
          ConsoleLog (StatusObject (Some scenario_status))])" for tr
    by (simp add: waitForStatus_def short_parameters for_loop_return waitForStatus_body_def
        waitForStatus_try_def unreachable_world_def deployed_world_def scenario_world_def
        scenario_status_def Let_def)
  have reach: "waitForUrl (js_new_URL2 unreachable_world) (http_get unreachable_world)
      ''https://preview-42.example.com'' 4 2000 ''/'' tr
      = Some (tr @ [HttpGet ''https://preview-42.example.com/'',
        ConsoleLog (GetNoResponseAttempt 0 (Finite 2)),
        ConsoleLog (Text ''socket hang up''), Wait 2000,
        HttpGet ''https://preview-42.example.com/'',
        ConsoleLog (GetNoResponseAttempt 1 (Finite 2)),
        ConsoleLog (Text ''socket hang up''), Wait 2000,
        SetFailed ''Timeout reached: Unable to connect to https://preview-42.example.com''])"
    for tr
    by (simp add: waitForUrl_def short_parameters for_loop_next for_loop_stop
        waitForUrl_body_def unreachable_world_def deployed_world_def scenario_world_def Let_def)
  have host: "js_new_URL unreachable_world ''https://preview-42.example.com''
       = Inr ''preview-42.example.com''"
    by (simp add: unreachable_world_def deployed_world_def scenario_world_def scenario_host_def)
  have id: "dep_id scenario_deployment = 42" by (simp add: scenario_deployment_def)
  have "run_stages short_inputs unreachable_world ''ghp_token'' ''abc123'' []
      = Some (Inr (), [ListDeployments ''abc123'' ''preview'',
        ConsoleLog (DeploymentObject scenario_deployment),
        ListDeploymentStatuses 42, ConsoleLog (StatusObject (Some scenario_status)),
        ConsoleLog (TargetUrl ''https://preview-42.example.com''),
        ConsoleLog (TargetHost ''preview-42.example.com''),
        SetOutput ''url'' ''https://preview-42.example.com'',
        SetOutput ''host'' ''preview-42.example.com'',
        ConsoleLog (WaitingFor ''https://preview-42.example.com''),
        HttpGet ''https://preview-42.example.com/'',
        ConsoleLog (GetNoResponseAttempt 0 (Finite 2)),
        ConsoleLog (Text ''socket hang up''), Wait 2000,
        HttpGet ''https://preview-42.example.com/'',
        ConsoleLog (GetNoResponseAttempt 1 (Finite 2)),
        ConsoleLog (Text ''socket hang up''), Wait 2000,
        SetFailed ''Timeout reached: Unable to connect to https://preview-42.example.com''])"
    by (simp add: run_stages_def short_parameters disc id stat run_target_def host
        scenario_status_def js_Boolean_def reach)
  then show ?thesis by (simp add: run_def start)
qed

subsection \<open>A run that finds no deployment\<close>

lemma later_append:
  "filter later_stage_call (xs @ ys) = filter later_stage_call xs @ filter later_stage_call ys"
  by simp

lemma no_deployment_falls_through:
  assumes "no_deployment_of actor (ld j)"
  shows "fst (waitForDeploymentToStart_body ld sha env actor ms n j) = None"
  using assms
  by (simp add: no_deployment_of_def waitForDeploymentToStart_body_def split: sum.splits)

lemma discovery_exhausted:
  fixes ms m :: number
  assumes "ms \<noteq> 0"
    and "\<forall>j. less_count j (calculateIterations m ms) \<longrightarrow> no_deployment_of actor (ld j)"
  shows "\<exists>n. calculateIterations m ms = Finite n
           \<and> waitForDeploymentToStart ld sha env actor (Some m) (Some ms) tr
               = Some (None, tr @ passes (waitForDeploymentToStart_body ld sha env actor ms
                     (calculateIterations m ms)) 0 (nat n))"
proof -
  let ?its = "calculateIterations m ms"
  let ?body = "waitForDeploymentToStart_body ld sha env actor ms ?its"
  obtain n where n: "?its = Finite n"
    using assms(1) by (simp add: calculateIterations_Finite)
  have "\<forall>j. 0 \<le> j \<and> int j < n \<longrightarrow> fst (?body j) = None"
    using assms(2) n no_deployment_falls_through[of actor ld] by simp
  then have "for_loop ?body (Finite n) 0 tr = Some (None, tr @ passes ?body 0 (nat n))"
    by (rule for_loop_exhausted)
  then show ?thesis
    using n by (simp add: waitForDeploymentToStart_def Let_def)
qed

lemma run_stages_no_deployment:
  assumes "\<forall>j. less_count j (calculateIterations (MAX_TIMEOUT inp) (CHECK_INTERVAL_IN_MS inp))
              \<longrightarrow> no_deployment_of (input_actor_name inp) (api_listDeployments ctx j)"
  shows "\<exists>n. calculateIterations (MAX_TIMEOUT inp) (CHECK_INTERVAL_IN_MS inp) = Finite n
     \<and> waitForDeploymentToStart (api_listDeployments ctx) sha (input_environment inp)
          (input_actor_name inp) (Some (MAX_TIMEOUT inp)) (Some (CHECK_INTERVAL_IN_MS inp)) tr
        = Some (None, tr @ passes (waitForDeploymentToStart_body (api_listDeployments ctx) sha
            (input_environment inp) (input_actor_name inp) (CHECK_INTERVAL_IN_MS inp)
            (calculateIterations (MAX_TIMEOUT inp) (CHECK_INTERVAL_IN_MS inp))) 0 (nat n))
     \<and> run_stages inp ctx tok sha tr
        = Some (Inr (), tr @ passes (waitForDeploymentToStart_body (api_listDeployments ctx) sha
            (input_environment inp) (input_actor_name inp) (CHECK_INTERVAL_IN_MS inp)
            (calculateIterations (MAX_TIMEOUT inp) (CHECK_INTERVAL_IN_MS inp))) 0 (nat n)
            @ [SetFailed ''no deployment found, exiting...''])"
proof -
  obtain n where n: "calculateIterations (MAX_TIMEOUT inp) (CHECK_INTERVAL_IN_MS inp) = Finite n"
    and d: "waitForDeploymentToStart (api_listDeployments ctx) sha (input_environment inp)
          (input_actor_name inp) (Some (MAX_TIMEOUT inp)) (Some (CHECK_INTERVAL_IN_MS inp)) tr
        = Some (None, tr @ passes (waitForDeploymentToStart_body (api_listDeployments ctx) sha
            (input_environment inp) (input_actor_name inp) (CHECK_INTERVAL_IN_MS inp)
            (calculateIterations (MAX_TIMEOUT inp) (CHECK_INTERVAL_IN_MS inp))) 0 (nat n))"
    using discovery_exhausted[OF CHECK_INTERVAL_IN_MS_nonzero assms] by blast
  have "run_stages inp ctx tok sha tr
        = Some (Inr (), tr @ passes (waitForDeploymentToStart_body (api_listDeployments ctx) sha
            (input_environment inp) (input_actor_name inp) (CHECK_INTERVAL_IN_MS inp)
            (calculateIterations (MAX_TIMEOUT inp) (CHECK_INTERVAL_IN_MS inp))) 0 (nat n)
            @ [SetFailed ''no deployment found, exiting...''])"
    using d by (simp add: run_stages_def)
  with n d show ?thesis by blast
qed

lemma run_no_deployment:
  assumes "\<forall>j. less_count j (calculateIterations (MAX_TIMEOUT inp) (CHECK_INTERVAL_IN_MS inp))
              \<longrightarrow> no_deployment_of (input_actor_name inp) (api_listDeployments ctx j)"
  shows "\<exists>t. run inp ctx = Some t \<and> signals t \<noteq> [] \<and> filter later_stage_call t = []
           \<and> outputs t = []"
proof -
  have fin: "signals (t @ [SetFailed m]) \<noteq> []" for t m
    by (simp add: signals_append)
  have "\<exists>r t. run_try inp ctx [] = Some (r, t) \<and> filter later_stage_call t = []
           \<and> outputs t = [] \<and> (r = Inr () \<longrightarrow> signals t \<noteq> [])"
  proof (cases "input_token inp")
    case (Inl e)
    then show ?thesis by (simp add: run_try_def)
  next
    case (Inr tok)
    define tr1 where "tr1 = (if \<not> js_Boolean tok
        then [] @ [SetFailed ''Required field `token` was not provided''] else [])"
    have e1: "filter later_stage_call tr1 = [] \<and> outputs tr1 = []" by (simp add: tr1_def)
    show ?thesis
    proof (cases "ctx_getOctokit ctx tok")
      case (Some e)
      then show ?thesis using Inr e1 by (simp add: run_try_def Let_def tr1_def)
    next
      case None
      show ?thesis
      proof (cases "ctx_repo ctx")
        case (Some e)
        then show ?thesis using Inr None e1 by (simp add: run_try_def Let_def tr1_def)
      next
        case repo: None
        obtain r tr2 where rs: "resolve_sha ctx tr1 = (r, tr2)" by (cases "resolve_sha ctx tr1")
        have start: "run_try inp ctx [] =
          (case (r, tr2) of
             (Inl e, tr2) \<Rightarrow> Some (Inl e, tr2)
           | (Inr None, tr2) \<Rightarrow>
               Some (Inr (), tr2 @ [SetFailed ''Unable to determine SHA. Exiting...''])
           | (Inr (Some sha), tr2) \<Rightarrow>
               if \<not> js_Boolean sha then
                 Some (Inr (), tr2 @ [SetFailed ''Unable to determine SHA. Exiting...''])
               else run_stages inp ctx tok sha tr2)"
          using Inr None repo rs by (simp add: run_try_def Let_def tr1_def)
        have e2: "filter later_stage_call tr2 = [] \<and> outputs tr2 = []"
          using rs e1
          by (auto simp: resolve_sha_def getShaForPullRequest_def outputs_append
              split: option.splits sum.splits prod.splits if_splits)
        show ?thesis
        proof (cases r)
          case (Inl e)
          then show ?thesis using start e2 by simp
        next
          case (Inr so)
          note so = this
          have unable: "run_try inp ctx [] = Some (Inr (), tr2 @ [SetFailed
              ''Unable to determine SHA. Exiting...'']) \<Longrightarrow> ?thesis"
            using e2 fin by (simp add: outputs_append)
          show ?thesis
          proof (cases so)
            case None
            then show ?thesis using start so unable by simp
          next
            case (Some sha)
            show ?thesis
            proof (cases "js_Boolean sha")
              case False
              then show ?thesis using start so Some unable by simp
            next
              case True
              obtain n where "run_stages inp ctx tok sha tr2
                  = Some (Inr (), tr2 @ passes (waitForDeploymentToStart_body
                      (api_listDeployments ctx) sha (input_environment inp)
                      (input_actor_name inp) (CHECK_INTERVAL_IN_MS inp)
                      (calculateIterations (MAX_TIMEOUT inp) (CHECK_INTERVAL_IN_MS inp)))
                      0 (nat n) @ [SetFailed ''no deployment found, exiting...''])"
                using run_stages_no_deployment[OF assms, of sha tr2 tok] by blast
              then show ?thesis
                using start so Some True e2
                by (simp add: outputs_append outputs_passes outputs_waitForDeploymentToStart_body
                    later_passes_discover signals_append)
            qed
          qed
        qed
      qed
    qed
  qed
  then obtain r t where t: "run_try inp ctx [] = Some (r, t)"
    and l: "filter later_stage_call t = []" and o: "outputs t = []"
    and s: "r = Inr () \<longrightarrow> signals t \<noteq> []" by blast
  show ?thesis
  proof (cases r)
    case (Inl e)
    then show ?thesis using t l o fin by (simp add: run_def outputs_append)
  next
    case (Inr u)
    then show ?thesis using t l o s by (simp add: run_def)
  qed
qed

lemma run_stages_status_timeout:
  assumes "waitForDeploymentToStart (api_listDeployments ctx) sha (input_environment inp)
          (input_actor_name inp) (Some (MAX_TIMEOUT inp)) (Some (CHECK_INTERVAL_IN_MS inp)) tr
        = Some (Some d, tr1)"
    and "waitForStatus (ctx_getOctokit ctx) (api_listDeploymentStatuses ctx) tok (dep_id d)
          (MAX_TIMEOUT inp) (ALLOW_INACTIVE inp) (CHECK_INTERVAL_IN_MS inp) tr1
        = Some (Inr None, tr2)"
  shows "run_stages inp ctx tok sha tr = Some (Inl undefined_environment_url, tr2)"
  using assms by (simp add: run_stages_def run_target_def)

lemma discovery_exhausted_any:
  fixes ms m :: number
  assumes "calculateIterations m ms \<noteq> Infinity"
    and "\<forall>j. less_count j (calculateIterations m ms) \<longrightarrow> no_deployment_of actor (ld j)"
  shows "\<exists>k. waitForDeploymentToStart ld sha env actor (Some m) (Some ms) tr
               = Some (None, tr @ passes (waitForDeploymentToStart_body ld sha env actor ms
                     (calculateIterations m ms)) 0 k)"
proof (cases "calculateIterations m ms")
  case (Finite n)
  let ?body = "waitForDeploymentToStart_body ld sha env actor ms (Finite n)"
  have "\<forall>j. 0 \<le> j \<and> int j < n \<longrightarrow> fst (?body j) = None"
    using assms(2) Finite no_deployment_falls_through[of actor ld] by simp
  then have "for_loop ?body (Finite n) 0 tr = Some (None, tr @ passes ?body 0 (nat n))"
    by (rule for_loop_exhausted)
  then show ?thesis
    using Finite by (auto simp add: waitForDeploymentToStart_def Let_def)
next
  case Infinity
  then show ?thesis using assms(1) by simp
next
  case NegInfinity
  then have "waitForDeploymentToStart ld sha env actor (Some m) (Some ms) tr
               = Some (None, tr @ passes (waitForDeploymentToStart_body ld sha env actor ms
                     (calculateIterations m ms)) 0 0)"
    by (simp add: waitForDeploymentToStart_def Let_def for_loop_stop passes_def)
  then show ?thesis by blast
next
  case NaN
  then have "waitForDeploymentToStart ld sha env actor (Some m) (Some ms) tr
               = Some (None, tr @ passes (waitForDeploymentToStart_body ld sha env actor ms
                     (calculateIterations m ms)) 0 0)"
    by (simp add: waitForDeploymentToStart_def Let_def for_loop_stop passes_def)
  then show ?thesis by blast
qed

subsection \<open>The trace of a loop extends the trace it was given\<close>

lemma for_loop_extends:
  assumes "for_loop body n i tr = Some y"
  shows "\<exists>k. snd y = tr @ passes body i k"
proof (rule for_loop.raw_induct
    [where P = "\<lambda>body n i tr y. \<exists>k. snd y = tr @ passes body i k", OF _ assms])
  fix f body n i tr y
  assume IH: "\<And>body n i tr y. f body n i tr = Some y \<Longrightarrow> \<exists>k. snd y = tr @ passes body i k"
    and step: "(if less_count i n then
                  (case body i of (None, evs) \<Rightarrow> f body n (Suc i) (tr @ evs)
                   | (Some r, evs) \<Rightarrow> Some (Some r, tr @ evs))
                else Some (None, tr)) = Some y"
  show "\<exists>k. snd y = tr @ passes body i k"
  proof (cases "less_count i n")
    case False
    then have "snd y = tr @ passes body i i" using step by (auto simp: passes_def)
    then show ?thesis ..
  next
    case True
    show ?thesis
    proof (cases "fst (body i)")
      case (Some r)
      then have "snd y = tr @ passes body i (Suc i)"
        using step True by (auto simp: passes_def split_beta)
      then show ?thesis ..
    next
      case None
      then have "f body n (Suc i) (tr @ snd (body i)) = Some y"
        using step True by (simp add: split_beta)
      then obtain k where k: "snd y = (tr @ snd (body i)) @ passes body (Suc i) k"
        using IH by blast
      show ?thesis
      proof (cases "Suc i \<le> k")
        case True
        then have "snd y = tr @ passes body i k" using k by (simp add: passes_step)
        then show ?thesis ..
      next
        case False
        then have "snd y = tr @ passes body i (Suc i)"
          using k by (simp add: passes_def)
        then show ?thesis ..
      qed
    qed
  qed
qed

lemma waitForUrl_signals:
  assumes "waitForUrl nu ag url m ms path tr = Some tr'"
  shows "signals tr' = signals tr
       \<or> signals tr' = signals tr @ [''Timeout reached: Unable to connect to '' @ url]"
proof -
  let ?its = "calculateIterations m ms"
  let ?body = "waitForUrl_body nu ag url path ms ?its"
  obtain y where y: "for_loop ?body ?its 0 tr = Some y"
    using assms by (cases "for_loop ?body ?its 0 tr") (simp_all add: waitForUrl_def Let_def)
  obtain k where k: "snd y = tr @ passes ?body 0 k" using for_loop_extends[OF y] by blast
  have q: "signals (passes ?body 0 k) = []"
    by (simp add: signals_passes signals_waitForUrl_body)
  show ?thesis
  proof (cases "fst y")
    case None
    then have "tr' = snd y @ [SetFailed (''Timeout reached: Unable to connect to '' @ url)]"
      using assms y by (cases y) (simp add: waitForUrl_def Let_def)
    then show ?thesis using k q by (simp add: signals_append)
  next
    case (Some u)
    then have "tr' = snd y"
      using assms y by (cases y) (simp add: waitForUrl_def Let_def)
    then show ?thesis using k q by (simp add: signals_append)
  qed
qed

section \<open>The retry budget and the inputs\<close>





section \<open>One outcome per poller invocation\<close>




section \<open>The discovery poller takes the first match\<close>

text \<open>
  Claim C3. When the deployments listed at a pass (reached because no earlier pass returned)
  contain a deployment whose creator is the expected actor, the discovery poller returns the
  first such deployment in the order of the list, whatever follows it in the list, and it
  returns at once: after the listing of that pass there is only the log of the deployment, so
  that passes \<open>0\<close> to \<open>k\<close> made \<open>k + 1\<close> calls and no pass follows.
\<close>

theorem discovery_first_match:
  fixes ms maxTimeout :: number and listDeployments sha environment actorName
  defines "its \<equiv> calculateIterations maxTimeout ms"
  defines "discover \<equiv>
    waitForDeploymentToStart_body listDeployments sha environment actorName ms its"
  assumes "less_count k its"
    and "\<forall>j<k. fst (discover j) = None"
    and "listDeployments k = Inr (earlier @ d # later)"
    and "\<forall>x\<in>set earlier. creator_login x \<noteq> actorName"
    and "creator_login d = actorName"
  shows "waitForDeploymentToStart listDeployments sha environment actorName
            (Some maxTimeout) (Some ms) tr
          = Some (Some d, tr @ passes discover 0 k
              @ [ListDeployments sha environment, ConsoleLog (DeploymentObject d)])
         \<and> calls (passes discover 0 k
              @ [ListDeployments sha environment, ConsoleLog (DeploymentObject d)])
           = replicate (Suc k) (ListDeployments sha environment)"
proof -
  have found: "find_deployment actorName (earlier @ d # later) = Some d"
    using find_first_match[of earlier "\<lambda>x. creator_login x = actorName" d later] assms(6,7)
    by (simp add: find_deployment_def)
  have pass: "discover k
      = (Some d, [ListDeployments sha environment, ConsoleLog (DeploymentObject d)])"
    using assms(5) found by (simp add: discover_def waitForDeploymentToStart_body_def)
  have "for_loop discover its 0 tr = Some (Some d, tr @ passes discover 0 (Suc k))"
    by (rule for_loop_first_return) (use assms(3,4) pass in auto)
  then have "waitForDeploymentToStart listDeployments sha environment actorName
            (Some maxTimeout) (Some ms) tr
          = Some (Some d, tr @ passes discover 0 k
              @ [ListDeployments sha environment, ConsoleLog (DeploymentObject d)])"
    using pass by (simp add: waitForDeploymentToStart_def its_def discover_def Let_def passes_last)
  moreover have "calls (passes discover 0 k
              @ [ListDeployments sha environment, ConsoleLog (DeploymentObject d)])
           = replicate (Suc k) (ListDeployments sha environment)"
  proof -
    have c1: "calls (passes discover 0 k) = replicate k (ListDeployments sha environment)"
      unfolding discover_def by (simp add: calls_passes_discover)
    have c2: "calls [ListDeployments sha environment, ConsoleLog (DeploymentObject d)]
                = [ListDeployments sha environment]"
      by (simp add: calls_def)
    show ?thesis
      by (simp only: calls_append c1 c2 replicate_append_same replicate_Suc)
  qed
  ultimately show ?thesis by simp
qed

text \<open>
  Claim C3 at a listing that fails once and then holds two deployments of the actor behind
  one of somebody else: the first of the two is returned.
\<close>

theorem discovery_first_match_witness:
  "waitForDeploymentToStart
     (\<lambda>i. if i < 1 then Inl (Error ''Bad credentials'')
          else Inr [\<lparr>dep_id = 7, creator_login = ''octocat''\<rparr>,
                    \<lparr>dep_id = 42, creator_login = ''bot-x''\<rparr>,
                    \<lparr>dep_id = 43, creator_login = ''bot-x''\<rparr>])
     ''abc123'' ''preview'' ''bot-x'' (Some 60) (Some 2000) []
   = Some (Some \<lparr>dep_id = 42, creator_login = ''bot-x''\<rparr>,
       [ListDeployments ''abc123'' ''preview'',
        ConsoleLog (DeploymentFetchError 1 (Finite 30)),
        ConsoleError (Error ''Bad credentials''), Wait 2000,
        ListDeployments ''abc123'' ''preview'',
        ConsoleLog (DeploymentObject \<lparr>dep_id = 42, creator_login = ''bot-x''\<rparr>)])"
proof -
  have its: "calculateIterations 60 2000 = Finite 30"
    by (rule calculateIterations_evaluated)
  show ?thesis
    using discovery_first_match
      [where k = "Suc 0" and earlier = "[\<lparr>dep_id = 7, creator_login = ''octocat''\<rparr>]"
        and d = "\<lparr>dep_id = 42, creator_login = ''bot-x''\<rparr>"
        and later = "[\<lparr>dep_id = 43, creator_login = ''bot-x''\<rparr>]"
        and actorName = "''bot-x''" and maxTimeout = 60 and ms = 2000
        and sha = "''abc123''" and environment = "''preview''" and tr = "[]"
        and listDeployments = "\<lambda>i. if i < 1 then Inl (Error ''Bad credentials'')
          else Inr [\<lparr>dep_id = 7, creator_login = ''octocat''\<rparr>,
                    \<lparr>dep_id = 42, creator_login = ''bot-x''\<rparr>,
                    \<lparr>dep_id = 43, creator_login = ''bot-x''\<rparr>]"]
    by (simp add: its waitForDeploymentToStart_body_def passes_def)
qed

section \<open>The status poller looks at the latest status\<close>

text \<open>
  Claim C2. At every pass of the status poller whose listing call returns: with no status
  entry the pass retries; otherwise only the first (most recent) entry counts, the older ones
  are ignored, and the pass returns that status when its state is \<open>inactive\<close> and
  \<open>allowInactive\<close> holds, retries when it is \<open>inactive\<close> and \<open>allowInactive\<close> does not
  hold, returns it when the state is \<open>success\<close>, and retries for every other state. A
  pass that retries ends with the sleep. The poller returns the status of the first pass
  within the iteration count that returns one, right after its listing.
\<close>

theorem status_classification:
  fixes ms maxTimeout :: number and listDeploymentStatuses deployment_id allowInactive
  defines "its \<equiv> calculateIterations maxTimeout ms"
  defines "check \<equiv>
    waitForStatus_body listDeploymentStatuses deployment_id allowInactive ms its"
  shows
    "(listDeploymentStatuses i = Inr [] \<longrightarrow> fst (check i) = None)
     \<and> (listDeploymentStatuses i = Inr (s # older) \<longrightarrow>
          check i = waitForStatus_body (\<lambda>j. Inr [s]) deployment_id allowInactive ms its i
          \<and> fst (check i)
              = (if state s = ''inactive'' then (if allowInactive then Some s else None)
                 else if state s = ''success'' then Some s else None))
     \<and> (fst (check i) = None \<longrightarrow> (\<exists>evs. snd (check i) = evs @ [Wait ms]))
     \<and> (getOctokit token = None \<and> less_count k its \<and> (\<forall>j<k. fst (check j) = None)
          \<and> listDeploymentStatuses k = Inr (s # older)
          \<and> (state s = ''success'' \<or> state s = ''inactive'' \<and> allowInactive)
        \<longrightarrow> waitForStatus getOctokit listDeploymentStatuses token deployment_id
              maxTimeout allowInactive ms tr
            = Some (Inr (Some s), tr @ passes check 0 k
                @ [ListDeploymentStatuses deployment_id, ConsoleLog (StatusObject (Some s))]))"
    (is "?A \<and> ?B \<and> ?C \<and> ?D")
proof -
  have A: ?A
    by (simp add: check_def waitForStatus_body_def waitForStatus_try_def waitForStatus_catch_def)
  have B: ?B
    unfolding check_def
    using waitForStatus_body_latest[of listDeploymentStatuses i s older]
      waitForStatus_body_class[of listDeploymentStatuses i s older]
    by blast
  have C: ?C
    unfolding check_def using waitForStatus_body_falls_through by blast
  have D: ?D
  proof (intro impI, elim conjE)
    assume tok: "getOctokit token = None" and lt: "less_count k its"
      and none: "\<forall>j<k. fst (check j) = None"
      and latest: "listDeploymentStatuses k = Inr (s # older)"
      and ok: "state s = ''success'' \<or> state s = ''inactive'' \<and> allowInactive"
    have pass: "check k
        = (Some s, [ListDeploymentStatuses deployment_id, ConsoleLog (StatusObject (Some s))])"
      unfolding check_def using latest ok by (rule waitForStatus_body_returns)
    have "for_loop check its 0 tr = Some (Some s, tr @ passes check 0 (Suc k))"
      by (rule for_loop_first_return) (use lt none pass in auto)
    then show "waitForStatus getOctokit listDeploymentStatuses token deployment_id
              maxTimeout allowInactive ms tr
            = Some (Inr (Some s), tr @ passes check 0 k
                @ [ListDeploymentStatuses deployment_id, ConsoleLog (StatusObject (Some s))])"
      using pass tok
      by (simp add: waitForStatus_def its_def check_def Let_def passes_last)
  qed
  from A B C D show ?thesis by (intro conjI)
qed

text \<open>
  Claim C2 at the statuses of the scenario (\<open>pending\<close>, then \<open>success\<close>), and at a
  latest status \<open>inactive\<close> in front of a \<open>success\<close>, with and without
  \<open>allowInactive\<close>.
\<close>

theorem status_classification_witness:
  "waitForStatus (\<lambda>t. None) (api_listDeploymentStatuses scenario_world) ''ghp_token'' 42
      60 False 2000 []
    = Some (Inr (Some scenario_status),
        [ListDeploymentStatuses 42,
         ConsoleLog (StatusObject (Some \<lparr>state = ''pending'', environment_url = Some []\<rparr>)),
         ConsoleLog (StatusRetry 1 (Finite 30)), Wait 2000,
         ListDeploymentStatuses 42, ConsoleLog (StatusObject (Some scenario_status))])
   \<and> waitForStatus (\<lambda>t. None)
      (\<lambda>i. Inr [\<lparr>state = ''inactive'', environment_url = Some ''https://old.example.com''\<rparr>,
                   scenario_status])
      ''ghp_token'' 42 60 True 2000 []
    = Some (Inr (Some \<lparr>state = ''inactive'',
                          environment_url = Some ''https://old.example.com''\<rparr>),
        [ListDeploymentStatuses 42,
         ConsoleLog (StatusObject (Some \<lparr>state = ''inactive'',
           environment_url = Some ''https://old.example.com''\<rparr>))])
   \<and> fst (waitForStatus_body
      (\<lambda>i. Inr [\<lparr>state = ''inactive'', environment_url = Some ''https://old.example.com''\<rparr>,
                   scenario_status])
      42 False 2000 (Finite 30) 0) = None"
proof -
  have its: "calculateIterations 60 2000 = Finite 30"
    by (rule calculateIterations_evaluated)
  have A: "waitForStatus (\<lambda>t. None) (api_listDeploymentStatuses scenario_world) ''ghp_token'' 42
      60 False 2000 []
    = Some (Inr (Some scenario_status),
        [ListDeploymentStatuses 42,
         ConsoleLog (StatusObject (Some \<lparr>state = ''pending'', environment_url = Some []\<rparr>)),
         ConsoleLog (StatusRetry 1 (Finite 30)), Wait 2000,
         ListDeploymentStatuses 42, ConsoleLog (StatusObject (Some scenario_status))])"
    using status_classification[where k = "Suc 0" and maxTimeout = 60 and ms = 2000
        and tr = "[]" and listDeploymentStatuses = "api_listDeploymentStatuses scenario_world"
        and getOctokit = "\<lambda>t. None" and token = "''ghp_token''" and deployment_id = 42
        and allowInactive = False and s = scenario_status and older = "[]",
        unfolded its, THEN conjunct2, THEN conjunct2, THEN conjunct2]
    by (simp add: waitForStatus_body_def waitForStatus_try_def waitForStatus_catch_def
        scenario_status_def scenario_world_def passes_def)
  have B: "waitForStatus (\<lambda>t. None)
      (\<lambda>i. Inr [\<lparr>state = ''inactive'', environment_url = Some ''https://old.example.com''\<rparr>,
                   scenario_status])
      ''ghp_token'' 42 60 True 2000 []
    = Some (Inr (Some \<lparr>state = ''inactive'',
                          environment_url = Some ''https://old.example.com''\<rparr>),
        [ListDeploymentStatuses 42,
         ConsoleLog (StatusObject (Some \<lparr>state = ''inactive'',
           environment_url = Some ''https://old.example.com''\<rparr>))])"
    using status_classification[where k = 0 and maxTimeout = 60 and ms = 2000
        and tr = "[]" and listDeploymentStatuses = "\<lambda>i. Inr [\<lparr>state = ''inactive'',
           environment_url = Some ''https://old.example.com''\<rparr>, scenario_status]"
        and getOctokit = "\<lambda>t. None" and token = "''ghp_token''" and deployment_id = 42
        and allowInactive = True
        and s = "\<lparr>state = ''inactive'', environment_url = Some ''https://old.example.com''\<rparr>"
        and older = "[scenario_status]",
        unfolded its, THEN conjunct2, THEN conjunct2, THEN conjunct2]
    by (simp add: passes_def)
  have C: "fst (waitForStatus_body
      (\<lambda>i. Inr [\<lparr>state = ''inactive'', environment_url = Some ''https://old.example.com''\<rparr>,
                   scenario_status])
      42 False 2000 (Finite 30) 0) = None"
    using status_classification[where i = 0 and maxTimeout = 60 and ms = 2000
        and listDeploymentStatuses = "\<lambda>i. Inr [\<lparr>state = ''inactive'',
           environment_url = Some ''https://old.example.com''\<rparr>, scenario_status]"
        and deployment_id = 42 and allowInactive = False
        and s = "\<lparr>state = ''inactive'', environment_url = Some ''https://old.example.com''\<rparr>"
        and older = "[scenario_status]",
        unfolded its, THEN conjunct2, THEN conjunct1, THEN mp, THEN conjunct2]
    by simp
  from A B C show ?thesis by (intro conjI)
qed

section \<open>An error in one attempt is retried\<close>

text \<open>
  Claim C7. In every poller, when pass \<open>k\<close> is reached (no earlier pass returned), pass
  \<open>k + 1\<close> is within the iteration count, the call of pass \<open>k\<close> throws an error and
  pass \<open>k + 1\<close> succeeds, then the poller returns the success of pass \<open>k + 1\<close>: the
  error is caught in its own pass, which emits the call, at least one log line and one sleep
  of the check interval, and the pass after it is \<open>k + 1\<close>. (Passes are counted from
  \<open>0\<close>; these are the attempts \<open>k + 1\<close> and \<open>k + 2\<close> of the claim.)
\<close>

theorem error_is_retried:
  fixes ms maxTimeout :: number
    and listDeployments sha environment actorName
    and listDeploymentStatuses deployment_id allowInactive
    and newURL axios_get url path
  defines "its \<equiv> calculateIterations maxTimeout ms"
  defines "discover \<equiv>
    waitForDeploymentToStart_body listDeployments sha environment actorName ms its"
  defines "check \<equiv>
    waitForStatus_body listDeploymentStatuses deployment_id allowInactive ms its"
  defines "reach \<equiv> waitForUrl_body newURL axios_get url path ms its"
  assumes "less_count (Suc k) its"
  shows
    "((\<forall>j<k. fst (discover j) = None) \<and> listDeployments k = Inl e
        \<and> fst (discover (Suc k)) = Some d
      \<longrightarrow> waitForDeploymentToStart listDeployments sha environment actorName
            (Some maxTimeout) (Some ms) tr
          = Some (Some d, tr @ passes discover 0 k
              @ [ListDeployments sha environment,
                 ConsoleLog (DeploymentFetchError (Suc k) its), ConsoleError e, Wait ms]
              @ snd (discover (Suc k))))
     \<and> (getOctokit token = None \<and> (\<forall>j<k. fst (check j) = None)
        \<and> listDeploymentStatuses k = Inl e \<and> fst (check (Suc k)) = Some s
      \<longrightarrow> (\<exists>l ls. waitForStatus getOctokit listDeploymentStatuses token deployment_id
            maxTimeout allowInactive ms tr
          = Some (Inr (Some s), tr @ passes check 0 k
              @ [ListDeploymentStatuses deployment_id] @ map ConsoleLog (l # ls) @ [Wait ms]
              @ snd (check (Suc k)))))
     \<and> ((\<forall>j<k. fst (reach j) = None) \<and> newURL path url = Inr checkUri
        \<and> axios_get k = Inl e \<and> axios_get (Suc k) = Inr ()
      \<longrightarrow> (\<exists>l ls. waitForUrl newURL axios_get url maxTimeout ms path tr
          = Some (tr @ passes reach 0 k
              @ [HttpGet checkUri] @ map ConsoleLog (l # ls) @ [Wait ms]
              @ [HttpGet checkUri, ConsoleLog ReceivedSuccess])))"
    (is "?A \<and> ?B \<and> ?C")
proof -
  have A: ?A
  proof (intro impI, elim conjE)
    assume none: "\<forall>j<k. fst (discover j) = None" and err: "listDeployments k = Inl e"
      and ok: "fst (discover (Suc k)) = Some d"
    have pass: "discover k = (None, [ListDeployments sha environment,
                 ConsoleLog (DeploymentFetchError (Suc k) its), ConsoleError e, Wait ms])"
      using err by (simp add: discover_def waitForDeploymentToStart_body_def)
    have "for_loop discover its 0 tr
           = Some (Some d, tr @ passes discover 0 k @ snd (discover k) @ snd (discover (Suc k)))"
      by (rule for_loop_error_then_return) (use assms(5) none pass ok in auto)
    then show "waitForDeploymentToStart listDeployments sha environment actorName
            (Some maxTimeout) (Some ms) tr
          = Some (Some d, tr @ passes discover 0 k
              @ [ListDeployments sha environment,
                 ConsoleLog (DeploymentFetchError (Suc k) its), ConsoleError e, Wait ms]
              @ snd (discover (Suc k)))"
      using pass
      by (simp add: waitForDeploymentToStart_def its_def discover_def Let_def)
  qed
  have B: ?B
  proof (intro impI, elim conjE)
    assume tok: "getOctokit token = None" and none: "\<forall>j<k. fst (check j) = None"
      and err: "listDeploymentStatuses k = Inl e" and ok: "fst (check (Suc k)) = Some s"
    obtain l ls where shape: "waitForStatus_catch e k its ms = map ConsoleLog (l # ls) @ [Wait ms]"
      using waitForStatus_catch_shape by blast
    have pass: "check k = (None, [ListDeploymentStatuses deployment_id]
                  @ map ConsoleLog (l # ls) @ [Wait ms])"
      using err shape by (simp add: check_def waitForStatus_body_def)
    have "for_loop check its 0 tr
           = Some (Some s, tr @ passes check 0 k @ snd (check k) @ snd (check (Suc k)))"
      by (rule for_loop_error_then_return) (use assms(5) none pass ok in auto)
    then have "waitForStatus getOctokit listDeploymentStatuses token deployment_id
            maxTimeout allowInactive ms tr
          = Some (Inr (Some s), tr @ passes check 0 k
              @ [ListDeploymentStatuses deployment_id] @ map ConsoleLog (l # ls) @ [Wait ms]
              @ snd (check (Suc k)))"
      using pass tok
      by (simp add: waitForStatus_def its_def check_def Let_def)
    then show "\<exists>l ls. waitForStatus getOctokit listDeploymentStatuses token deployment_id
            maxTimeout allowInactive ms tr
          = Some (Inr (Some s), tr @ passes check 0 k
              @ [ListDeploymentStatuses deployment_id] @ map ConsoleLog (l # ls) @ [Wait ms]
              @ snd (check (Suc k)))"
      by blast
  qed
  have C: ?C
  proof (intro impI, elim conjE)
    assume none: "\<forall>j<k. fst (reach j) = None" and uri: "newURL path url = Inr checkUri"
      and err: "axios_get k = Inl e" and ok: "axios_get (Suc k) = Inr ()"
    obtain l ls where shape: "waitForUrl_catch e k its ms = map ConsoleLog (l # ls) @ [Wait ms]"
      using waitForUrl_catch_shape by blast
    have pass: "reach k = (None, [HttpGet checkUri] @ map ConsoleLog (l # ls) @ [Wait ms])"
      using err uri shape by (simp add: reach_def waitForUrl_body_def)
    have next_pass: "reach (Suc k) = (Some (), [HttpGet checkUri, ConsoleLog ReceivedSuccess])"
      using ok uri by (simp add: reach_def waitForUrl_body_def)
    have "for_loop reach its 0 tr
           = Some (Some (), tr @ passes reach 0 k @ snd (reach k) @ snd (reach (Suc k)))"
      by (rule for_loop_error_then_return) (use assms(5) none pass next_pass in auto)
    then have "waitForUrl newURL axios_get url maxTimeout ms path tr
          = Some (tr @ passes reach 0 k
              @ [HttpGet checkUri] @ map ConsoleLog (l # ls) @ [Wait ms]
              @ [HttpGet checkUri, ConsoleLog ReceivedSuccess])"
      using pass next_pass
      by (simp add: waitForUrl_def its_def reach_def Let_def)
    then show "\<exists>l ls. waitForUrl newURL axios_get url maxTimeout ms path tr
          = Some (tr @ passes reach 0 k
              @ [HttpGet checkUri] @ map ConsoleLog (l # ls) @ [Wait ms]
              @ [HttpGet checkUri, ConsoleLog ReceivedSuccess])"
      by blast
  qed
  from A B C show ?thesis by (intro conjI)
qed

text \<open>
  Claim C7 at three polls whose second attempt throws and whose third succeeds.
\<close>

theorem error_is_retried_witness:
  "waitForDeploymentToStart
      (\<lambda>i. if i = 0 then Inr [] else if i = 1 then Inl (Error ''Bad credentials'')
           else Inr [scenario_deployment])
      ''abc123'' ''preview'' ''bot-x'' (Some 60) (Some 2000) []
    = Some (Some scenario_deployment,
        [ListDeployments ''abc123'' ''preview'',
         ConsoleLog (DeploymentRetry ''bot-x'' 1 (Finite 30)), Wait 2000,
         ListDeployments ''abc123'' ''preview'',
         ConsoleLog (DeploymentFetchError 2 (Finite 30)),
         ConsoleError (Error ''Bad credentials''), Wait 2000,
         ListDeployments ''abc123'' ''preview'',
         ConsoleLog (DeploymentObject scenario_deployment)])
   \<and> (\<exists>l ls. waitForStatus (\<lambda>t. None)
      (\<lambda>i. if i = 0 then Inr [] else if i = 1 then Inl (Error ''Server Error'')
           else Inr [scenario_status])
      ''ghp_token'' 42 60 False 2000 []
    = Some (Inr (Some scenario_status),
        [ListDeploymentStatuses 42, ConsoleLog (StatusObject None),
         ConsoleLog (StatusRetry 1 (Finite 30)), ConsoleLog (Text ''No status was available''),
         Wait 2000,
         ListDeploymentStatuses 42] @ map ConsoleLog (l # ls) @ [Wait 2000,
         ListDeploymentStatuses 42, ConsoleLog (StatusObject (Some scenario_status))]))
   \<and> (\<exists>l ls. waitForUrl (\<lambda>p u. Inr (u @ p))
      (\<lambda>i. if i = 0 then Inl (ResponseError 503 ''Request failed with status code 503'')
           else if i = 1 then Inl (RequestError ''socket hang up'') else Inr ())
      ''https://preview-42.example.com'' 60 2000 ''/'' []
    = Some ([HttpGet ''https://preview-42.example.com/'',
         ConsoleLog (GetStatusAttempt 503 0 (Finite 30)), Wait 2000,
         HttpGet ''https://preview-42.example.com/''] @ map ConsoleLog (l # ls) @ [Wait 2000,
         HttpGet ''https://preview-42.example.com/'', ConsoleLog ReceivedSuccess]))"
proof -
  have its: "calculateIterations 60 2000 = Finite 30"
    by (rule calculateIterations_evaluated)
  have A: "waitForDeploymentToStart
      (\<lambda>i. if i = 0 then Inr [] else if i = 1 then Inl (Error ''Bad credentials'')
           else Inr [scenario_deployment])
      ''abc123'' ''preview'' ''bot-x'' (Some 60) (Some 2000) []
    = Some (Some scenario_deployment,
        [ListDeployments ''abc123'' ''preview'',
         ConsoleLog (DeploymentRetry ''bot-x'' 1 (Finite 30)), Wait 2000,
         ListDeployments ''abc123'' ''preview'',
         ConsoleLog (DeploymentFetchError 2 (Finite 30)),
         ConsoleError (Error ''Bad credentials''), Wait 2000,
         ListDeployments ''abc123'' ''preview'',
         ConsoleLog (DeploymentObject scenario_deployment)])"
    using error_is_retried[where k = "Suc 0" and maxTimeout = 60 and ms = 2000
        and tr = "[]" and listDeployments = "\<lambda>i. if i = 0 then Inr []
           else if i = 1 then Inl (Error ''Bad credentials'') else Inr [scenario_deployment]"
        and sha = "''abc123''" and environment = "''preview''" and actorName = "''bot-x''"
        and e = "Error ''Bad credentials''" and d = scenario_deployment,
        unfolded its, THEN conjunct1]
    by (simp add: waitForDeploymentToStart_body_def find_deployment_def
        scenario_deployment_def passes_def numeral_2_eq_2)
  have B: "\<exists>l ls. waitForStatus (\<lambda>t. None)
      (\<lambda>i. if i = 0 then Inr [] else if i = 1 then Inl (Error ''Server Error'')
           else Inr [scenario_status])
      ''ghp_token'' 42 60 False 2000 []
    = Some (Inr (Some scenario_status),
        [ListDeploymentStatuses 42, ConsoleLog (StatusObject None),
         ConsoleLog (StatusRetry 1 (Finite 30)), ConsoleLog (Text ''No status was available''),
         Wait 2000,
         ListDeploymentStatuses 42] @ map ConsoleLog (l # ls) @ [Wait 2000,
         ListDeploymentStatuses 42, ConsoleLog (StatusObject (Some scenario_status))])"
    using error_is_retried[where k = "Suc 0" and maxTimeout = 60 and ms = 2000
        and tr = "[]" and listDeploymentStatuses = "\<lambda>i. if i = 0 then Inr []
           else if i = 1 then Inl (Error ''Server Error'') else Inr [scenario_status]"
        and getOctokit = "\<lambda>t. None" and token = "''ghp_token''" and deployment_id = 42
        and allowInactive = False and e = "Error ''Server Error''" and s = scenario_status,
        unfolded its, THEN conjunct2, THEN conjunct1]
    by (simp add: waitForStatus_body_def waitForStatus_try_def waitForStatus_catch_def
        scenario_status_def passes_def)
  have C: "\<exists>l ls. waitForUrl (\<lambda>p u. Inr (u @ p))
      (\<lambda>i. if i = 0 then Inl (ResponseError 503 ''Request failed with status code 503'')
           else if i = 1 then Inl (RequestError ''socket hang up'') else Inr ())
      ''https://preview-42.example.com'' 60 2000 ''/'' []
    = Some ([HttpGet ''https://preview-42.example.com/'',
         ConsoleLog (GetStatusAttempt 503 0 (Finite 30)), Wait 2000,
         HttpGet ''https://preview-42.example.com/''] @ map ConsoleLog (l # ls) @ [Wait 2000,
         HttpGet ''https://preview-42.example.com/'', ConsoleLog ReceivedSuccess])"
    using error_is_retried[where k = "Suc 0" and maxTimeout = 60 and ms = 2000
        and tr = "[]" and newURL = "\<lambda>p u. Inr (u @ p)"
        and axios_get = "\<lambda>i. if i = 0
           then Inl (ResponseError 503 ''Request failed with status code 503'')
           else if i = 1 then Inl (RequestError ''socket hang up'') else Inr ()"
        and url = "''https://preview-42.example.com''" and path = "''/''"
        and checkUri = "''https://preview-42.example.com/''"
        and e = "RequestError ''socket hang up''",
        unfolded its, THEN conjunct2, THEN conjunct2]
    by (simp add: waitForUrl_body_def passes_def)
  from A B C show ?thesis by (intro conjI)
qed

section \<open>A timeout shorter than the interval\<close>




section \<open>Outputs and failure\<close>

text \<open>
  Claim C5, amended. Every run ends in one of three ways: it succeeds, with both outputs set
  and no failure signalled; or it signals failure and has set no output, which is what every
  fatal condition before the reachability stage leads to; or the reachability poller times
  out, and then the failure is signalled after the \<open>url\<close> and the \<open>host\<close> output were
  both set. So every fatal condition signals failure, and outputs are emitted on a failing run
  exactly when the reachability poller timed out. (The API client is taken to reject an empty
  token, as \<open>getOctokit\<close> does.)
\<close>

theorem run_outputs_and_failure:
  assumes "ctx_getOctokit ctx [] \<noteq> None"
  shows "\<exists>tr. run inp ctx = Some tr
           \<and> (run_succeeded tr \<or> run_failed_without_outputs tr
                \<or> run_timed_out_with_outputs tr)"
  using assms by (rule run_verdict)

text \<open>
  The amended claim at the scenario: the run succeeds and sets the \<open>url\<close> and the
  \<open>host\<close> of the preview.
\<close>

theorem run_outputs_and_failure_witness:
  "\<exists>tr. run scenario_inputs scenario_world = Some tr \<and> run_succeeded tr
       \<and> outputs tr = [(''url'', ''https://preview-42.example.com''),
                        (''host'', ''preview-42.example.com'')]"
proof -
  have "ctx_getOctokit scenario_world [] \<noteq> None" by (simp add: scenario_world_def)
  from run_outputs_and_failure[OF this, of scenario_inputs]
  obtain tr where r: "run scenario_inputs scenario_world = Some tr"
    and v: "run_succeeded tr \<or> run_failed_without_outputs tr \<or> run_timed_out_with_outputs tr"
    by blast
  have s: "signals tr = []" using r by (auto simp add: scenario_run)
  have o: "outputs tr = [(''url'', ''https://preview-42.example.com''),
                        (''host'', ''preview-42.example.com'')]"
    using r by (auto simp add: scenario_run)
  from v s have "run_succeeded tr"
    by (auto simp: run_failed_without_outputs_def run_timed_out_with_outputs_def)
  with r o show ?thesis by blast
qed

text \<open>
  Claim C5 as stated fails when the preview never answers: \<open>run\<close> sets both outputs
  before it calls \<open>waitForUrl\<close>, whose timeout then signals the failure.
\<close>

theorem outputs_on_failure_counterexample:
  "\<exists>tr. run short_inputs unreachable_world = Some tr
       \<and> signals tr = [''Timeout reached: Unable to connect to https://preview-42.example.com'']
       \<and> outputs tr = [(''url'', ''https://preview-42.example.com''),
                        (''host'', ''preview-42.example.com'')]"
  by (simp add: unreachable_run)

section \<open>No deployment, no later stage\<close>

text \<open>
  Claim C6. When no listing within the iteration count holds a deployment of the actor (each
  fails or has no match), the discovery poller returns \<open>null\<close> after its last pass, as a
  value: nothing is thrown. The orchestrator then signals the failure
  \<open>no deployment found, exiting...\<close> and returns; neither the discovery passes nor the
  whole run hold a call of the status stage or of the reachability stage, and no output is
  set. Likewise a status poller that timed out (it returned \<open>undefined\<close>) ends the body of
  \<open>run\<close> with the error of reading \<open>status.environment_url\<close>, before the reachability
  stage: a stage begins only after the stage before it returned a payload.
\<close>

theorem discovery_timeout_is_fatal:
  fixes inp ctx sha and ms m :: number
  defines "its \<equiv> calculateIterations (MAX_TIMEOUT inp) (CHECK_INTERVAL_IN_MS inp)"
  defines "discover \<equiv>
    waitForDeploymentToStart_body (api_listDeployments ctx) sha (input_environment inp)
      (input_actor_name inp) (CHECK_INTERVAL_IN_MS inp) its"
  shows
    "(calculateIterations m ms \<noteq> Infinity
        \<and> (\<forall>j. less_count j (calculateIterations m ms) \<longrightarrow> no_deployment_of actor (ld j))
      \<longrightarrow> (\<exists>k. waitForDeploymentToStart ld sha env actor (Some m) (Some ms) tr
               = Some (None, tr @ passes (waitForDeploymentToStart_body ld sha env actor ms
                     (calculateIterations m ms)) 0 k)))
     \<and> ((\<forall>j. less_count j its
            \<longrightarrow> no_deployment_of (input_actor_name inp) (api_listDeployments ctx j))
      \<longrightarrow> (\<exists>n. its = Finite n
            \<and> waitForDeploymentToStart (api_listDeployments ctx) sha (input_environment inp)
                (input_actor_name inp) (Some (MAX_TIMEOUT inp))
                (Some (CHECK_INTERVAL_IN_MS inp)) tr
              = Some (None, tr @ passes discover 0 (nat n))
            \<and> run_stages inp ctx tok sha tr
              = Some (Inr (), tr @ passes discover 0 (nat n)
                  @ [SetFailed ''no deployment found, exiting...''])
            \<and> filter later_stage_call (passes discover 0 (nat n)) = [])
          \<and> (\<exists>t. run inp ctx = Some t \<and> signals t \<noteq> []
                \<and> filter later_stage_call t = [] \<and> outputs t = []))
     \<and> (waitForDeploymentToStart (api_listDeployments ctx) sha (input_environment inp)
            (input_actor_name inp) (Some (MAX_TIMEOUT inp))
            (Some (CHECK_INTERVAL_IN_MS inp)) tr = Some (Some d, tr1)
        \<and> waitForStatus (ctx_getOctokit ctx) (api_listDeploymentStatuses ctx) tok (dep_id d)
            (MAX_TIMEOUT inp) (ALLOW_INACTIVE inp) (CHECK_INTERVAL_IN_MS inp) tr1
          = Some (Inr None, tr2)
      \<longrightarrow> run_stages inp ctx tok sha tr = Some (Inl undefined_environment_url, tr2))"
    (is "?A \<and> ?B \<and> ?C")
proof -
  have A: ?A using discovery_exhausted_any[of m ms actor ld sha env tr] by blast
  have B: ?B
  proof
    assume none: "\<forall>j. less_count j its
            \<longrightarrow> no_deployment_of (input_actor_name inp) (api_listDeployments ctx j)"
    have l: "filter later_stage_call (passes discover 0 k) = []" for k
      unfolding discover_def by (rule later_passes_discover)
    have "\<exists>n. its = Finite n
            \<and> waitForDeploymentToStart (api_listDeployments ctx) sha (input_environment inp)
                (input_actor_name inp) (Some (MAX_TIMEOUT inp))
                (Some (CHECK_INTERVAL_IN_MS inp)) tr
              = Some (None, tr @ passes discover 0 (nat n))
            \<and> run_stages inp ctx tok sha tr
              = Some (Inr (), tr @ passes discover 0 (nat n)
                  @ [SetFailed ''no deployment found, exiting...''])"
      unfolding discover_def its_def
      by (rule run_stages_no_deployment) (use none in \<open>simp add: its_def\<close>)
    moreover have "\<exists>t. run inp ctx = Some t \<and> signals t \<noteq> []
                \<and> filter later_stage_call t = [] \<and> outputs t = []"
      by (rule run_no_deployment) (use none in \<open>simp add: its_def\<close>)
    ultimately show "(\<exists>n. its = Finite n
            \<and> waitForDeploymentToStart (api_listDeployments ctx) sha (input_environment inp)
                (input_actor_name inp) (Some (MAX_TIMEOUT inp))
                (Some (CHECK_INTERVAL_IN_MS inp)) tr
              = Some (None, tr @ passes discover 0 (nat n))
            \<and> run_stages inp ctx tok sha tr
              = Some (Inr (), tr @ passes discover 0 (nat n)
                  @ [SetFailed ''no deployment found, exiting...''])
            \<and> filter later_stage_call (passes discover 0 (nat n)) = [])
          \<and> (\<exists>t. run inp ctx = Some t \<and> signals t \<noteq> []
                \<and> filter later_stage_call t = [] \<and> outputs t = [])"
      using l by blast
  qed
  have C: ?C using run_stages_status_timeout[of ctx sha inp tr d tr1 tok tr2] by blast
  from A B C show ?thesis by (intro conjI)
qed

text \<open>
  Claim C6 at a run with a budget of two passes whose listings hold only a deployment of
  somebody else.
\<close>

theorem discovery_timeout_is_fatal_witness:
  "run short_inputs no_deployment_world
   = Some [ListDeployments ''abc123'' ''preview'',
           ConsoleLog (DeploymentRetry ''bot-x'' 1 (Finite 2)), Wait 2000,
           ListDeployments ''abc123'' ''preview'',
           ConsoleLog (DeploymentRetry ''bot-x'' 2 (Finite 2)), Wait 2000,
           SetFailed ''no deployment found, exiting...'']"
proof -
  let ?its = "calculateIterations (MAX_TIMEOUT short_inputs) (CHECK_INTERVAL_IN_MS short_inputs)"
  let ?discover = "waitForDeploymentToStart_body (api_listDeployments no_deployment_world)
      ''abc123'' (input_environment short_inputs) (input_actor_name short_inputs)
      (CHECK_INTERVAL_IN_MS short_inputs) ?its"
  have none: "\<forall>j. less_count j ?its
      \<longrightarrow> no_deployment_of (input_actor_name short_inputs)
            (api_listDeployments no_deployment_world j)"
    by (simp add: short_parameters no_deployment_world_def no_deployment_of_def
        find_deployment_def)
  have start: "run_try short_inputs no_deployment_world []
      = run_stages short_inputs no_deployment_world ''ghp_token'' ''abc123'' []"
    by (rule run_try_start)
       (simp_all add: short_parameters no_deployment_world_def scenario_world_def
         resolve_sha_def js_Boolean_def)
  from discovery_timeout_is_fatal[where inp = short_inputs and ctx = no_deployment_world
      and sha = "''abc123''" and tok = "''ghp_token''" and tr = "[]",
      THEN conjunct2, THEN conjunct1, THEN mp, OF none]
  obtain n where n: "?its = Finite n"
    and r: "run_stages short_inputs no_deployment_world ''ghp_token'' ''abc123'' []
              = Some (Inr (), [] @ passes ?discover 0 (nat n)
                  @ [SetFailed ''no deployment found, exiting...''])"
    by blast
  have "n = 2" using n by (simp add: short_parameters)
  then show ?thesis
    using r start
    by (simp add: run_def short_parameters passes_def numeral_2_eq_2
        waitForDeploymentToStart_body_def no_deployment_world_def find_deployment_def)
qed

section \<open>A status without an environment URL\<close>

text \<open>
  Claim C8 says that a successful status without an environment URL is reported as
  \<open>no target_url found in the status check\<close>. The code parses the host with
  \<open>new URL(targetUrl)\<close> before it tests \<open>!targetUrl\<close>. Since the \<open>URL\<close> constructor
  rejects the empty string and the string \<open>undefined\<close>, an absent URL (\<open>undefined\<close> or
  empty) makes the body of \<open>run\<close> throw the error of the constructor, which the \<open>catch\<close>
  reports; and the end of \<open>run\<close> never adds the report
  \<open>no target_url found in the status check\<close> to the failures signalled so far.
\<close>

theorem no_target_url_never_reported:
  assumes "js_new_URL ctx [] = Inl e1" and "js_new_URL ctx ''undefined'' = Inl e2"
  shows "(environment_url st = None
            \<longrightarrow> run_target ctx m ms p (Some st) tr = Some (Inl e2, tr))
       \<and> (environment_url st = Some []
            \<longrightarrow> run_target ctx m ms p (Some st) tr = Some (Inl e1, tr))
       \<and> (run_target ctx m ms p status tr = Some (r, tr')
            \<and> ''no target_url found in the status check'' \<notin> set (signals tr)
            \<longrightarrow> ''no target_url found in the status check'' \<notin> set (signals tr'))"
    (is "?A \<and> ?B \<and> ?C")
proof -
  have A: ?A using assms(2) by (simp add: run_target_def Let_def)
  have B: ?B using assms(1) by (simp add: run_target_def Let_def)
  have C: ?C
  proof (intro impI, elim conjE)
    let ?msg = "''no target_url found in the status check''"
    assume res: "run_target ctx m ms p status tr = Some (r, tr')"
      and old: "?msg \<notin> set (signals tr)"
    show "?msg \<notin> set (signals tr')"
    proof (cases status)
      case None
      then show ?thesis using res old by (simp add: run_target_def)
    next
      case (Some s)
      note s = this
      show ?thesis
      proof (cases "environment_url s")
        case None
        then show ?thesis using res old s assms(2) by (simp add: run_target_def Let_def)
      next
        case (Some u)
        note u = this
        show ?thesis
        proof (cases "u = []")
          case True
          then show ?thesis using res old s u assms(1) by (simp add: run_target_def Let_def)
        next
          case False
          show ?thesis
          proof (cases "js_new_URL ctx u")
            case (Inl e)
            then show ?thesis using res old s u by (simp add: run_target_def Let_def)
          next
            case (Inr h)
            let ?tr0 = "tr @ [ConsoleLog (TargetUrl u), ConsoleLog (TargetHost h),
                       SetOutput ''url'' u, SetOutput ''host'' h, ConsoleLog (WaitingFor u)]"
            have w: "waitForUrl (js_new_URL2 ctx) (http_get ctx) u m ms p ?tr0 = Some tr'"
              using res s u False Inr
              by (simp add: run_target_def Let_def js_Boolean_def split: option.splits)
            have s0: "signals ?tr0 = signals tr" by (simp add: signals_append)
            from waitForUrl_signals[OF w] show ?thesis
              using old s0 by auto
          qed
        qed
      qed
    qed
  qed
  from A B C show ?thesis by (intro conjI)
qed

text \<open>
  The run at a deployment whose latest status is \<open>success\<close> with an empty
  \<open>environment_url\<close>: the one failure signalled is the message of the \<open>URL\<close>
  constructor.
\<close>

theorem no_target_url_never_reported_witness:
  "run short_inputs no_url_world
   = Some [ListDeployments ''abc123'' ''preview'',
           ConsoleLog (DeploymentObject scenario_deployment),
           ListDeploymentStatuses 42,
           ConsoleLog (StatusObject (Some \<lparr>state = ''success'', environment_url = Some []\<rparr>)),
           SetFailed ''Invalid URL'']"
proof -
  have parse: "js_new_URL no_url_world [] = Inl (Error ''Invalid URL'')"
    "js_new_URL no_url_world ''undefined'' = Inl (Error ''Invalid URL'')"
    by (simp_all add: no_url_world_def deployed_world_def scenario_world_def scenario_host_def)
  have target: "run_target no_url_world 4 2000 ''/''
      (Some \<lparr>state = ''success'', environment_url = Some []\<rparr>) tr
      = Some (Inl (Error ''Invalid URL''), tr)" for tr
    using no_target_url_never_reported[OF parse,
        where st = "\<lparr>state = ''success'', environment_url = Some []\<rparr>",
        THEN conjunct2, THEN conjunct1]
    by simp
  have start: "run_try short_inputs no_url_world []
      = run_stages short_inputs no_url_world ''ghp_token'' ''abc123'' []"
    by (rule run_try_start)
       (simp_all add: short_parameters no_url_world_def deployed_world_def
         scenario_world_def resolve_sha_def js_Boolean_def)
  have disc: "waitForDeploymentToStart (api_listDeployments no_url_world) ''abc123''
      ''preview'' ''bot-x'' (Some 4) (Some 2000) []
      = Some (Some scenario_deployment, [ListDeployments ''abc123'' ''preview'',
          ConsoleLog (DeploymentObject scenario_deployment)])"
    by (simp add: waitForDeploymentToStart_def short_parameters for_loop_return
        waitForDeploymentToStart_body_def no_url_world_def deployed_world_def
        find_deployment_def scenario_deployment_def Let_def)
  have stat: "waitForStatus (ctx_getOctokit no_url_world)
      (api_listDeploymentStatuses no_url_world) ''ghp_token'' 42 4 False 2000 tr
      = Some (Inr (Some \<lparr>state = ''success'', environment_url = Some []\<rparr>),
          tr @ [ListDeploymentStatuses 42,
          ConsoleLog (StatusObject (Some \<lparr>state = ''success'', environment_url = Some []\<rparr>))])"
    for tr
    by (simp add: waitForStatus_def short_parameters for_loop_return waitForStatus_body_def
        waitForStatus_try_def no_url_world_def deployed_world_def scenario_world_def Let_def)
  have id: "dep_id scenario_deployment = 42" by (simp add: scenario_deployment_def)
  have "run_stages short_inputs no_url_world ''ghp_token'' ''abc123'' []
      = Some (Inl (Error ''Invalid URL''), [ListDeployments ''abc123'' ''preview'',
           ConsoleLog (DeploymentObject scenario_deployment),
           ListDeploymentStatuses 42,
           ConsoleLog (StatusObject (Some \<lparr>state = ''success'', environment_url = Some []\<rparr>))])"
    by (simp add: run_stages_def short_parameters disc id stat target)
  then show ?thesis by (simp add: run_def start)
qed

end
